theory Spec2Isabelle
  imports Complex_Main
begin

section \<open>JavaScript numbers\<close>

text \<open>
  Every numeric value of \<^verbatim>\<open>app.js\<close> is a JavaScript Number, an IEEE-754 double. A
  finite nonzero double is modelled by the real it denotes (\<open>Num r\<close>, where \<open>r\<close> is meant to
  be a double), \<open>Num 0\<close> is the positive zero, and the negative zero, the two infinities
  and NaN are values of their own. Arithmetic rounds as the machine does: to the nearest
  double, ties to even, with gradual underflow and with overflow to infinity.
\<close>

datatype number = Num real | NegZero | PosInfinity | NegInfinity | NaN

text \<open>
  Rounding a real to a double. \<open>expo x\<close> is the binary exponent of a positive \<open>x\<close>, the
  \<open>e\<close> with \<open>2 powi e \<le> x < 2 powi (e + 1)\<close>, found from the bit length of \<open>\<lfloor>x\<rfloor>\<close> or of
  \<open>\<lceil>1 / x\<rceil> - 1\<close>. \<open>quantum x\<close> is the exponent of the spacing of the doubles around \<open>x\<close>: 52
  below the exponent of \<open>x\<close>, and \<open>- 1074\<close> throughout the subnormal range. \<open>round_double\<close>
  rounds \<open>x\<close> to the nearest multiple of that spacing, a tie to the even multiple; a result
  of magnitude \<open>2 ^ 1024\<close> or more overflows to an infinity, and a result of zero keeps the
  sign of \<open>x\<close>.
\<close>

fun bit_length :: "nat \<Rightarrow> nat" where
  "bit_length n = (if n = 0 then 0 else Suc (bit_length (n div 2)))"

declare bit_length.simps [simp del]

definition expo :: "real \<Rightarrow> int" where
  "expo x =
     (if 1 \<le> x then int (bit_length (nat \<lfloor>x\<rfloor>)) - 1
      else - int (bit_length (nat (\<lceil>1 / x\<rceil> - 1))))"

definition quantum :: "real \<Rightarrow> int" where
  "quantum x = max (expo \<bar>x\<bar>) (- 1022) - 52"

definition round_half_even :: "real \<Rightarrow> int" where
  "round_half_even y =
     (let f = \<lfloor>y\<rfloor>; d = y - of_int f
      in if d < 1 / 2 then f
         else if 1 / 2 < d then f + 1
         else if even f then f else f + 1)"

definition round_double :: "real \<Rightarrow> number" where
  "round_double x =
     (if x = 0 then Num 0
      else
        let q = quantum x;
            m = round_half_even (x / 2 powi q);
            r = of_int m * 2 powi q
        in if 2 ^ 1024 \<le> \<bar>r\<bar> then (if 0 < x then PosInfinity else NegInfinity)
           else if m = 0 then (if 0 < x then Num 0 else NegZero)
           else Num r)"

text \<open>The reals that are doubles: below \<open>2 ^ 1024\<close> in magnitude and a multiple of their
  own spacing.\<close>

definition is_double :: "real \<Rightarrow> bool" where
  "is_double x \<longleftrightarrow>
     \<bar>x\<bar> < 2 ^ 1024 \<and>
     (x = 0 \<or> of_int \<lfloor>x / 2 powi quantum x\<rfloor> = x / 2 powi quantum x)"

text \<open>
  Division, addition and subtraction as IEEE-754 defines them: the special cases first
  (NaN, the infinities, the zeros with their signs), then the exact result rounded.
\<close>

fun negative :: "number \<Rightarrow> bool" where
  "negative (Num r) = (r < 0)"
| "negative NegZero = True"
| "negative NegInfinity = True"
| "negative PosInfinity = False"
| "negative NaN = False"

fun is_zero :: "number \<Rightarrow> bool" where
  "is_zero (Num r) = (r = 0)"
| "is_zero NegZero = True"
| "is_zero _ = False"

fun is_infinite :: "number \<Rightarrow> bool" where
  "is_infinite PosInfinity = True"
| "is_infinite NegInfinity = True"
| "is_infinite _ = False"

fun value_of :: "number \<Rightarrow> real" where
  "value_of (Num r) = r"
| "value_of _ = 0"

definition signed_zero :: "bool \<Rightarrow> number" where
  "signed_zero neg = (if neg then NegZero else Num 0)"

definition signed_infinity :: "bool \<Rightarrow> number" where
  "signed_infinity neg = (if neg then NegInfinity else PosInfinity)"

definition js_div :: "number \<Rightarrow> number \<Rightarrow> number" where
  "js_div a b =
     (if a = NaN \<or> b = NaN then NaN
      else if is_infinite a then
        (if is_infinite b then NaN else signed_infinity (negative a \<noteq> negative b))
      else if is_infinite b then signed_zero (negative a \<noteq> negative b)
      else if is_zero b then
        (if is_zero a then NaN else signed_infinity (negative a \<noteq> negative b))
      else if is_zero a then signed_zero (negative a \<noteq> negative b)
      else round_double (value_of a / value_of b))"

definition js_add :: "number \<Rightarrow> number \<Rightarrow> number" where
  "js_add a b =
     (if a = NaN \<or> b = NaN then NaN
      else if is_infinite a then
        (if is_infinite b \<and> negative a \<noteq> negative b then NaN else a)
      else if is_infinite b then b
      else if value_of a + value_of b = 0 then signed_zero (a = NegZero \<and> b = NegZero)
      else round_double (value_of a + value_of b))"

fun js_neg :: "number \<Rightarrow> number" where
  "js_neg (Num r) = (if r = 0 then NegZero else Num (- r))"
| "js_neg NegZero = Num 0"
| "js_neg PosInfinity = NegInfinity"
| "js_neg NegInfinity = PosInfinity"
| "js_neg NaN = NaN"

definition js_sub :: "number \<Rightarrow> number \<Rightarrow> number" where
  "js_sub a b = js_add a (js_neg b)"

section \<open>The objects of the graphics library\<close>

text \<open>
  The program shares one object between the variable \<^verbatim>\<open>model\<close> and the children of the
  scene, so objects live in a store and are named by references. Every object of the
  library that the program touches is an \<^verbatim>\<open>Object3D\<close>: it has a position, a rotation
  (an \<^verbatim>\<open>Euler\<close>), a scale and a list of children; what else it carries depends on its
  class.
\<close>

type_synonym ref = nat

record vector3 =
  vec_x :: number
  vec_y :: number
  vec_z :: number

record euler =
  euler_x :: number
  euler_y :: number
  euler_z :: number

datatype texture = Texture string

datatype object_kind =
    Scene "texture option"
  | PerspectiveCamera number number number number
  | AmbientLight number number
  | DirectionalLight number number
  | Group

record object3d =
  kind :: object_kind
  position :: vector3
  rotation :: euler
  scale :: vector3
  children :: "ref list"

text \<open>The callbacks that the program hands to the library: \<^verbatim>\<open>animate\<close>, given to
  \<^verbatim>\<open>setAnimationLoop\<close>, and the anonymous function given to \<^verbatim>\<open>loader.load\<close>.\<close>

datatype frame_callback = Animate

datatype load_callback = OnModelLoaded

record webgl_renderer =
  antialias :: bool
  renderer_size :: "(number \<times> number) option"
  animation_loop :: "frame_callback option"

text \<open>The calls into the library and the browser, in the order they are made.\<close>

datatype call =
    New object_kind
  | TextureLoaderLoad string
  | Add ref ref
  | GLTFLoaderLoad string load_callback
  | NewWebGLRenderer bool
  | SetSize number number
  | SetAnimationLoop frame_callback
  | AppendChild
  | Render "ref option" "ref option"

record gltf =
  gltf_scene :: ref

section \<open>The state of the module\<close>

text \<open>
  \<open>WIDTH\<close> and \<open>HEIGHT\<close> are the constants read from the window when the module is
  evaluated; \<open>scene\<close>, \<open>camera\<close>, \<open>model\<close> and \<open>renderer\<close> are the module's four variables,
  \<open>None\<close> while they are \<^verbatim>\<open>undefined\<close>. The store, the requests that the loader has
  not answered yet and the log of calls belong to the library and the browser.
\<close>

record state =
  WIDTH :: number
  HEIGHT :: number
  scene :: "ref option"
  camera :: "ref option"
  model :: "ref option"
  renderer :: "webgl_renderer option"
  heap :: "ref \<rightharpoonup> object3d"
  next_ref :: ref
  pending_loads :: "(string \<times> load_callback) list"
  calls :: "call list"

text \<open>
  A function of the program either returns or throws, and what it has written to the
  state before it throws stays written.
\<close>

datatype error = TypeError

datatype outcome = Returns state | Throws error state

fun state_of :: "outcome \<Rightarrow> state" where
  "state_of (Returns s) = s"
| "state_of (Throws e s) = s"

definition then_do :: "outcome \<Rightarrow> (state \<Rightarrow> outcome) \<Rightarrow> outcome" where
  "then_do r f = (case r of Returns s \<Rightarrow> f s | Throws e s \<Rightarrow> Throws e s)"

fun seq :: "(state \<Rightarrow> outcome) list \<Rightarrow> state \<Rightarrow> outcome" where
  "seq [] s = Returns s"
| "seq (f # fs) s = then_do (f s) (seq fs)"

definition log_call :: "call \<Rightarrow> state \<Rightarrow> state" where
  "log_call c s = s\<lparr>calls := calls s @ [c]\<rparr>"

subsection \<open>Constants of the program\<close>

definition FOV :: number where "FOV = Num 45"
definition NEAR :: number where "NEAR = Num 1"
definition FAR :: number where "FAR = Num 1000"

definition CAMERA_X :: number where "CAMERA_X = Num 0"
definition CAMERA_Y :: number where "CAMERA_Y = Num 10"
definition CAMERA_Z :: number where "CAMERA_Z = Num 17"

definition MODEL_X :: number where "MODEL_X = Num 0"
definition MODEL_Y :: number where "MODEL_Y = Num 10"
definition MODEL_Z :: number where "MODEL_Z = Num 10"
definition MODEL_SCALE :: number where "MODEL_SCALE = Num (1 / 2)"

definition BACKGROUND_IMG_PATH :: string where "BACKGROUND_IMG_PATH = ''materials/space.jpg''"
definition MODEL_GLTF_PATH :: string where "MODEL_GLTF_PATH = ''materials/shine.gltf''"

definition LIGHT_INTENSITY :: number where "LIGHT_INTENSITY = Num 5"
definition AMBIENT_COLOR :: number where "AMBIENT_COLOR = Num 16777215"
definition DIRECTIONAL_COLOR :: number where "DIRECTIONAL_COLOR = Num 16766720"

definition ROTATE_X_DELAY :: number where "ROTATE_X_DELAY = Num 2000"
definition ROTATE_Y_DELAY :: number where "ROTATE_Y_DELAY = Num 1000"

subsection \<open>Operations of the library\<close>

text \<open>
  A new \<^verbatim>\<open>Object3D\<close> sits at the origin (a directional light one unit up the y axis),
  unrotated, at scale one, without children. The constructor call is logged and the
  object gets the next free reference.
\<close>

definition Object3D :: "object_kind \<Rightarrow> object3d" where
  "Object3D k =
     \<lparr>kind = k,
      position =
        (case k of
           DirectionalLight c i \<Rightarrow> \<lparr>vec_x = Num 0, vec_y = Num 1, vec_z = Num 0\<rparr>
         | _ \<Rightarrow> \<lparr>vec_x = Num 0, vec_y = Num 0, vec_z = Num 0\<rparr>),
      rotation = \<lparr>euler_x = Num 0, euler_y = Num 0, euler_z = Num 0\<rparr>,
      scale = \<lparr>vec_x = Num 1, vec_y = Num 1, vec_z = Num 1\<rparr>,
      children = []\<rparr>"

definition alloc :: "object3d \<Rightarrow> state \<Rightarrow> ref \<times> state" where
  "alloc ob s = (next_ref s, s\<lparr>heap := (heap s)(next_ref s \<mapsto> ob), next_ref := Suc (next_ref s)\<rparr>)"

definition new_object :: "object_kind \<Rightarrow> state \<Rightarrow> ref \<times> state" where
  "new_object k s = alloc (Object3D k) (log_call (New k) s)"

text \<open>
  A member access through a variable: on \<^verbatim>\<open>undefined\<close> it throws a TypeError. A
  reference always names an object of the store; the model throws as well where it
  would not.
\<close>

definition update_object :: "ref option \<Rightarrow> (object3d \<Rightarrow> object3d) \<Rightarrow> state \<Rightarrow> outcome" where
  "update_object v f s =
     (case v of
        None \<Rightarrow> Throws TypeError s
      | Some r \<Rightarrow>
          (case heap s r of
             None \<Rightarrow> Throws TypeError s
           | Some ob \<Rightarrow> Returns (s\<lparr>heap := (heap s)(r \<mapsto> f ob)\<rparr>)))"

definition vector3_set :: "number \<Rightarrow> number \<Rightarrow> number \<Rightarrow> vector3" where
  "vector3_set a b c = \<lparr>vec_x = a, vec_y = b, vec_z = c\<rparr>"

definition position_set :: "ref option \<Rightarrow> number \<Rightarrow> number \<Rightarrow> number \<Rightarrow> state \<Rightarrow> outcome" where
  "position_set v a b c = update_object v (\<lambda>ob. ob\<lparr>position := vector3_set a b c\<rparr>)"

definition scale_set :: "ref option \<Rightarrow> number \<Rightarrow> number \<Rightarrow> number \<Rightarrow> state \<Rightarrow> outcome" where
  "scale_set v a b c = update_object v (\<lambda>ob. ob\<lparr>scale := vector3_set a b c\<rparr>)"

definition set_rotation_x :: "ref option \<Rightarrow> number \<Rightarrow> state \<Rightarrow> outcome" where
  "set_rotation_x v a = update_object v (\<lambda>ob. ob\<lparr>rotation := (rotation ob)\<lparr>euler_x := a\<rparr>\<rparr>)"

definition set_rotation_y :: "ref option \<Rightarrow> number \<Rightarrow> state \<Rightarrow> outcome" where
  "set_rotation_y v a = update_object v (\<lambda>ob. ob\<lparr>rotation := (rotation ob)\<lparr>euler_y := a\<rparr>\<rparr>)"

definition set_background :: "texture \<Rightarrow> object3d \<Rightarrow> object3d" where
  "set_background t ob = (case kind ob of Scene _ \<Rightarrow> ob\<lparr>kind := Scene (Some t)\<rparr> | _ \<Rightarrow> ob)"

text \<open>\<^verbatim>\<open>scene.add(object)\<close>: the object becomes the last child of the scene.\<close>

definition scene_add :: "ref \<Rightarrow> state \<Rightarrow> outcome" where
  "scene_add r s =
     (case scene s of
        None \<Rightarrow> Throws TypeError s
      | Some sc \<Rightarrow>
          update_object (Some sc) (\<lambda>ob. ob\<lparr>children := children ob @ [r]\<rparr>) (log_call (Add sc r) s))"

text \<open>\<^verbatim>\<open>renderer.render(scene, camera)\<close>: the draw, logged with its two arguments.\<close>

definition render :: "state \<Rightarrow> outcome" where
  "render s =
     (case renderer s of
        None \<Rightarrow> Throws TypeError s
      | Some r \<Rightarrow> Returns (log_call (Render (scene s) (camera s)) s))"

definition update_renderer :: "(webgl_renderer \<Rightarrow> webgl_renderer) \<Rightarrow> state \<Rightarrow> outcome" where
  "update_renderer f s =
     (case renderer s of
        None \<Rightarrow> Throws TypeError s
      | Some r \<Rightarrow> Returns (s\<lparr>renderer := Some (f r)\<rparr>))"

section \<open>The functions of app.js\<close>

definition createScene :: "state \<Rightarrow> outcome" where
  "createScene s =
     (let (sc, s1) = new_object (Scene None) s;
          s2 = s1\<lparr>scene := Some sc\<rparr>;
          texture = Texture BACKGROUND_IMG_PATH;
          s3 = log_call (TextureLoaderLoad BACKGROUND_IMG_PATH) s2
      in update_object (scene s3) (set_background texture) s3)"

definition configureCamera :: "state \<Rightarrow> outcome" where
  "configureCamera s =
     (let (c, s1) = new_object (PerspectiveCamera FOV (js_div (WIDTH s) (HEIGHT s)) NEAR FAR) s;
          s2 = s1\<lparr>camera := Some c\<rparr>
      in position_set (camera s2) CAMERA_X CAMERA_Y CAMERA_Z s2)"

text \<open>\<open>setUpLight\<close> ends with \<^verbatim>\<open>return scene\<close>; its caller drops the value, and so does the
  model: the scene is the object that the variable \<open>scene\<close> of the returned state names.\<close>

definition setUpLight :: "state \<Rightarrow> outcome" where
  "setUpLight s =
     (let (ambientLight, s1) = new_object (AmbientLight AMBIENT_COLOR LIGHT_INTENSITY) s
      in then_do (seq [position_set (Some ambientLight) MODEL_X MODEL_Y MODEL_Z,
                       scene_add ambientLight] s1)
      (\<lambda>s2. let (directionalLight, s3) =
                   new_object (DirectionalLight DIRECTIONAL_COLOR LIGHT_INTENSITY) s2
        in then_do (seq [position_set (Some directionalLight)
                           MODEL_X MODEL_Y (js_add MODEL_Z (Num 1)),
                         scene_add directionalLight] s3)
      (\<lambda>s4. let (directionalLight2, s5) =
                   new_object (DirectionalLight DIRECTIONAL_COLOR LIGHT_INTENSITY) s4
        in seq [position_set (Some directionalLight2)
                  MODEL_X MODEL_Y (js_sub MODEL_Z (Num 1)),
                scene_add directionalLight2] s5)))"

text \<open>\<^verbatim>\<open>loader.load(path, callback)\<close> only files the request; the callback runs later.\<close>

definition addModel :: "state \<Rightarrow> outcome" where
  "addModel s =
     Returns (log_call (GLTFLoaderLoad MODEL_GLTF_PATH OnModelLoaded)
                (s\<lparr>pending_loads := pending_loads s @ [(MODEL_GLTF_PATH, OnModelLoaded)]\<rparr>))"

text \<open>The anonymous callback of \<open>addModel\<close>, run by the loader with the loaded asset.\<close>

definition addModel_onLoad :: "gltf \<Rightarrow> state \<Rightarrow> outcome" where
  "addModel_onLoad g s =
     (let s1 = s\<lparr>model := Some (gltf_scene g)\<rparr>
      in then_do (scale_set (model s1) MODEL_SCALE MODEL_SCALE MODEL_SCALE s1)
      (\<lambda>s2. then_do (position_set (model s2) MODEL_X MODEL_Y MODEL_Z s2)
      (\<lambda>s3. case model s3 of
               None \<Rightarrow> Throws TypeError s3
             | Some m \<Rightarrow> scene_add m s3)))"

definition renderScene :: "state \<Rightarrow> outcome" where
  "renderScene s =
     (let s1 = log_call (NewWebGLRenderer True)
                 (s\<lparr>renderer := Some \<lparr>antialias = True, renderer_size = None,
                                       animation_loop = None\<rparr>\<rparr>)
      in then_do (update_renderer (\<lambda>r. r\<lparr>renderer_size := Some (WIDTH s1, HEIGHT s1)\<rparr>)
                    (log_call (SetSize (WIDTH s1) (HEIGHT s1)) s1))
      (\<lambda>s2. then_do (update_renderer (\<lambda>r. r\<lparr>animation_loop := Some Animate\<rparr>)
                        (log_call (SetAnimationLoop Animate) s2))
      (\<lambda>s3. case renderer s3 of
               None \<Rightarrow> Throws TypeError s3
             | Some r \<Rightarrow> Returns (log_call AppendChild s3))))"

text \<open>
  \<^verbatim>\<open>if (model && model.rotation)\<close>: the rotation of an \<^verbatim>\<open>Object3D\<close> is an object, which is
  truthy, so the test is the test that \<open>model\<close> is defined.
\<close>

definition animate :: "number \<Rightarrow> state \<Rightarrow> outcome" where
  "animate time s =
     then_do
       (if model s \<noteq> None
        then seq [set_rotation_x (model s) (js_div time ROTATE_X_DELAY),
                  set_rotation_y (model s) (js_div time ROTATE_Y_DELAY)] s
        else Returns s)
       render"

definition init :: "state \<Rightarrow> outcome" where
  "init = seq [createScene, configureCamera, setUpLight, addModel, renderScene]"

section \<open>The host: module evaluation, frames and the loader\<close>

text \<open>
  Evaluating the module binds the constants (the two window dimensions are its inputs),
  leaves the four variables undefined and calls \<open>init\<close>.
\<close>

definition initial_state :: "number \<Rightarrow> number \<Rightarrow> state" where
  "initial_state innerWidth innerHeight =
     \<lparr>WIDTH = innerWidth, HEIGHT = innerHeight,
      scene = None, camera = None, model = None, renderer = None,
      heap = Map.empty, next_ref = 0, pending_loads = [], calls = []\<rparr>"

definition app_js :: "number \<Rightarrow> number \<Rightarrow> outcome" where
  "app_js innerWidth innerHeight = init (initial_state innerWidth innerHeight)"

text \<open>
  After that the host runs callbacks, one at a time. \<open>Frame time\<close> is a frame of the
  animation loop: the renderer calls the function it was given, if any. \<open>Loaded ob\<close> is
  the loader finishing the oldest request: it has built the root of the asset, a
  \<^verbatim>\<open>Group\<close> with the transform and children \<open>ob\<close> carries, and passes it to the
  request's callback; each request is answered once, and with no request left nothing
  happens. The descendants of the root belong to the loader and are not kept in the
  store. A run stops at the first callback that throws.
\<close>

datatype event = Frame number | Loaded object3d

fun host_step :: "event \<Rightarrow> state \<Rightarrow> outcome" where
  "host_step (Frame time) s =
     (case renderer s of
        None \<Rightarrow> Returns s
      | Some r \<Rightarrow>
          (case animation_loop r of
             None \<Rightarrow> Returns s
           | Some Animate \<Rightarrow> animate time s))"
| "host_step (Loaded ob) s =
     (case pending_loads s of
        [] \<Rightarrow> Returns s
      | (path, OnModelLoaded) # rest \<Rightarrow>
          (let (g, s1) = alloc (ob\<lparr>kind := Group\<rparr>) (s\<lparr>pending_loads := rest\<rparr>)
           in addModel_onLoad \<lparr>gltf_scene = g\<rparr> s1))"

definition run :: "event list \<Rightarrow> state \<Rightarrow> outcome" where
  "run es = seq (map host_step es)"

fun first_load :: "event list \<Rightarrow> object3d option" where
  "first_load [] = None"
| "first_load (Frame time # es) = first_load es"
| "first_load (Loaded ob # es) = Some ob"

section \<open>Observations\<close>

definition deref :: "ref option \<Rightarrow> state \<Rightarrow> object3d option" where
  "deref v s = (case v of None \<Rightarrow> None | Some r \<Rightarrow> heap s r)"

definition scene_children :: "state \<Rightarrow> ref list" where
  "scene_children s = (case deref (scene s) s of None \<Rightarrow> [] | Some ob \<Rightarrow> children ob)"

definition is_light :: "object3d \<Rightarrow> bool" where
  "is_light ob =
     (case kind ob of AmbientLight c i \<Rightarrow> True | DirectionalLight c i \<Rightarrow> True | _ \<Rightarrow> False)"

definition lights :: "state \<Rightarrow> object3d list" where
  "lights s = filter is_light (List.map_filter (heap s) (scene_children s))"

definition intensity :: "object3d \<Rightarrow> number option" where
  "intensity ob =
     (case kind ob of AmbientLight c i \<Rightarrow> Some i | DirectionalLight c i \<Rightarrow> Some i | _ \<Rightarrow> None)"

definition model_ok :: "state \<Rightarrow> bool" where
  "model_ok s = (case model s of None \<Rightarrow> True | Some m \<Rightarrow> heap s m \<noteq> None)"

definition model_rotation :: "state \<Rightarrow> euler option" where
  "model_rotation s = map_option rotation (deref (model s) s)"

fun is_render :: "call \<Rightarrow> bool" where
  "is_render (Render sc c) = True"
| "is_render _ = False"

fun is_new :: "call \<Rightarrow> bool" where
  "is_new (New k) = True"
| "is_new _ = False"

definition draws :: "state \<Rightarrow> call list" where
  "draws s = filter is_render (calls s)"

fun is_frame :: "event \<Rightarrow> bool" where
  "is_frame (Frame time) = True"
| "is_frame _ = False"

text \<open>An object with the transform of a new \<^verbatim>\<open>Object3D\<close> but for its position.\<close>

definition placed :: "object_kind \<Rightarrow> real \<Rightarrow> real \<Rightarrow> real \<Rightarrow> object3d" where
  "placed k a b c =
     \<lparr>kind = k,
      position = \<lparr>vec_x = Num a, vec_y = Num b, vec_z = Num c\<rparr>,
      rotation = \<lparr>euler_x = Num 0, euler_y = Num 0, euler_z = Num 0\<rparr>,
      scale = \<lparr>vec_x = Num 1, vec_y = Num 1, vec_z = Num 1\<rparr>,
      children = []\<rparr>"

text \<open>
  The states of the program once \<open>init\<close> has returned: \<open>ready\<close> holds from then on,
  \<open>loading\<close> until the loader answers and \<open>loaded\<close> afterwards.
\<close>

definition ready :: "number \<Rightarrow> number \<Rightarrow> state \<Rightarrow> bool" where
  "ready w h s \<longleftrightarrow>
     WIDTH s = w \<and> HEIGHT s = h \<and> scene s = Some 0 \<and> camera s = Some 1 \<and>
     renderer s = Some \<lparr>antialias = True, renderer_size = Some (w, h),
                        animation_loop = Some Animate\<rparr> \<and>
     heap s 1 = Some (placed (PerspectiveCamera (Num 45) (js_div w h) (Num 1) (Num 1000)) 0 10 17) \<and>
     heap s 2 = Some (placed (AmbientLight (Num 16777215) (Num 5)) 0 10 10) \<and>
     heap s 3 = Some (placed (DirectionalLight (Num 16766720) (Num 5)) 0 10 11) \<and>
     heap s 4 = Some (placed (DirectionalLight (Num 16766720) (Num 5)) 0 10 9)"

definition loading :: "number \<Rightarrow> number \<Rightarrow> state \<Rightarrow> bool" where
  "loading w h s \<longleftrightarrow>
     ready w h s \<and> model s = None \<and> next_ref s = 5 \<and>
     pending_loads s = [(MODEL_GLTF_PATH, OnModelLoaded)] \<and>
     heap s 0 = Some ((placed (Scene (Some (Texture ''materials/space.jpg''))) 0 0 0)
                        \<lparr>children := [2, 3, 4]\<rparr>)"

definition loaded :: "number \<Rightarrow> number \<Rightarrow> object3d \<Rightarrow> state \<Rightarrow> bool" where
  "loaded w h g s \<longleftrightarrow>
     ready w h s \<and> model s = Some 5 \<and> next_ref s = 6 \<and> pending_loads s = [] \<and>
     heap s 0 = Some ((placed (Scene (Some (Texture ''materials/space.jpg''))) 0 0 0)
                        \<lparr>children := [2, 3, 4, 5]\<rparr>) \<and>
     (case heap s 5 of
        None \<Rightarrow> False
      | Some ob \<Rightarrow>
          kind ob = Group \<and> children ob = children g \<and>
          position ob = \<lparr>vec_x = Num 0, vec_y = Num 10, vec_z = Num 10\<rparr> \<and>
          scale ob = \<lparr>vec_x = Num (1 / 2), vec_y = Num (1 / 2), vec_z = Num (1 / 2)\<rparr> \<and>
          euler_z (rotation ob) = euler_z (rotation g))"

section \<open>Sample states\<close>

text \<open>
  A window of 800 by 600: the state in which \<open>setUpLight\<close> is called, the state when
  \<open>init\<close> has returned, and the state after one frame and the arrival of a model whose
  root is a fresh \<^verbatim>\<open>Group\<close>.
\<close>

definition sample_before_lights :: state where
  "sample_before_lights =
     state_of (seq [createScene, configureCamera] (initial_state (Num 800) (Num 600)))"

definition sample_started :: state where
  "sample_started = state_of (app_js (Num 800) (Num 600))"

definition sample_loaded :: state where
  "sample_loaded = state_of (run [Frame (Num 16), Loaded (Object3D Group)] sample_started)"

section \<open>Double-precision arithmetic\<close>

lemmas round_defs = round_double_def quantum_def expo_def bit_length.simps round_half_even_def Let_def

lemmas num_defs = js_div_def js_add_def js_sub_def signed_zero_def signed_infinity_def

subsection \<open>The exponent\<close>

lemma bit_length_bounds:
  "0 < n \<Longrightarrow> 2 ^ (bit_length n - 1) \<le> n \<and> n < 2 ^ bit_length n"
proof (induction n rule: bit_length.induct)
  case (1 n)
  show ?case
  proof (cases "n div 2 = 0")
    case True
    with "1.prems" have "n = 1" by (simp add: div_eq_0_iff) 
    then show ?thesis by (simp add: bit_length.simps)
  next
    case False
    with "1.IH" "1.prems" have
      ih: "2 ^ (bit_length (n div 2) - 1) \<le> n div 2" "n div 2 < 2 ^ bit_length (n div 2)"
      by simp_all
    have b: "0 < bit_length (n div 2)"
      using False by (simp add: bit_length.simps)
    have n: "bit_length n = Suc (bit_length (n div 2))"
      using "1.prems" by (subst bit_length.simps) simp
    from b have "(2::nat) ^ bit_length (n div 2) = 2 * 2 ^ (bit_length (n div 2) - 1)"
      by (cases "bit_length (n div 2)") simp_all
    with ih(1) have "2 ^ bit_length (n div 2) \<le> 2 * (n div 2)" by simp
    also have "\<dots> \<le> n" by simp
    finally have lo: "2 ^ bit_length (n div 2) \<le> n" .
    from ih(2) have "n < 2 * 2 ^ bit_length (n div 2)" by linarith
    with lo n show ?thesis by simp
  qed
qed

lemma bit_length_pos: "0 < n \<Longrightarrow> 0 < bit_length n"
  by (subst bit_length.simps) simp

lemma expo_bounds:
  assumes "0 < x"
  shows "2 powi (expo x) \<le> x" and "x < 2 powi (expo x + 1)"
proof -
  have "2 powi (expo x) \<le> x \<and> x < 2 powi (expo x + 1)"
  proof (cases "1 \<le> x")
    case True
    define n where "n = nat \<lfloor>x\<rfloor>"
    define b where "b = bit_length n"
    from True have n: "0 < n" "real n \<le> x" "x < real n + 1"
      by (simp_all add: n_def)
    from bit_length_bounds [OF n(1)] bit_length_pos [OF n(1)]
    have bb: "2 ^ (b - 1) \<le> n" "n < 2 ^ b" "0 < b"
      by (simp_all add: b_def)
    have e: "expo x = int (b - 1)"
      using True bb(3) by (simp add: expo_def n_def b_def)
    have e1: "expo x + 1 = int b"
      using e bb(3) by simp
    from bb(1) have "(2::real) ^ (b - 1) \<le> real n"
      by simp
    moreover have "2 powi (expo x) = (2::real) ^ (b - 1)"
      by (simp only: e power_int_of_nat)
    ultimately have lo: "2 powi (expo x) \<le> x"
      using n(2) by linarith
    from bb(2) have "n + 1 \<le> 2 ^ b" by simp
    then have "real (n + 1) \<le> real (2 ^ b)"
      by (rule of_nat_mono)
    then have "real n + 1 \<le> 2 ^ b"
      by simp
    moreover have "2 powi (expo x + 1) = (2::real) ^ b"
      by (simp only: e1 power_int_of_nat)
    ultimately have "x < 2 powi (expo x + 1)"
      using n(3) by linarith
    with lo show ?thesis ..
  next
    case False
    define c where "c = \<lceil>1 / x\<rceil>"
    define n where "n = nat (c - 1)"
    define k where "k = bit_length n"
    from False assms have "1 < 1 / x" by simp
    then have c2: "2 \<le> c"
      unfolding c_def by linarith
    have cx: "1 / x \<le> of_int c" "of_int c - 1 < 1 / x"
      unfolding c_def by linarith+
    from c2 have n: "0 < n" "int n = c - 1"
      by (simp_all add: n_def)
    from bit_length_bounds [OF n(1)] bit_length_pos [OF n(1)]
    have bb: "2 ^ (k - 1) \<le> n" "n < 2 ^ k" "0 < k"
      by (simp_all add: k_def)
    have e: "expo x = - int k"
      using False by (simp add: expo_def n_def c_def k_def)
    from bb(2) have "n + 1 \<le> 2 ^ k" by simp
    then have "int (n + 1) \<le> int (2 ^ k)"
      by (rule of_nat_mono)
    then have "int n + 1 \<le> 2 ^ k"
      by simp
    with n(2) have "c \<le> 2 ^ k" by simp
    then have "(of_int c :: real) \<le> of_int (2 ^ k)"
      by (simp only: of_int_le_iff)
    then have "(of_int c :: real) \<le> 2 ^ k"
      by simp
    with cx(1) have "1 / x \<le> 2 ^ k" by linarith
    with assms have "1 / 2 ^ k \<le> x"
      by (simp add: field_simps)
    moreover have "2 powi (expo x) = 1 / (2::real) ^ k"
      by (simp only: e power_int_minus power_int_of_nat inverse_eq_divide)
    ultimately have lo: "2 powi (expo x) \<le> x"
      by linarith
    from bb(1) have "int (2 ^ (k - 1)) \<le> int n"
      by (rule of_nat_mono)
    with n(2) have "2 ^ (k - 1) \<le> c - 1"
      by simp
    then have "(of_int (2 ^ (k - 1)) :: real) \<le> of_int (c - 1)"
      by (simp only: of_int_le_iff)
    then have "(2::real) ^ (k - 1) \<le> of_int c - 1"
      by simp
    with cx(2) have "2 ^ (k - 1) < 1 / x" by linarith
    with assms have "x < 1 / 2 ^ (k - 1)"
      by (simp add: field_simps)
    moreover have "expo x + 1 = - int (k - 1)"
      using e bb(3) by simp
    then have "2 powi (expo x + 1) = 1 / (2::real) ^ (k - 1)"
      by (simp only: power_int_minus power_int_of_nat inverse_eq_divide)
    ultimately have "x < 2 powi (expo x + 1)"
      by linarith
    with lo show ?thesis ..
  qed
  then show "2 powi (expo x) \<le> x" and "x < 2 powi (expo x + 1)" by simp_all
qed

subsection \<open>Rounding to an integer, and the spacing\<close>

lemma round_half_even_near: "\<bar>of_int (round_half_even y) - y\<bar> \<le> 1 / 2"
proof -
  have "of_int \<lfloor>y\<rfloor> \<le> y" "y < of_int \<lfloor>y\<rfloor> + 1" by linarith+
  then show ?thesis
    by (auto simp add: round_half_even_def Let_def)
qed

lemma round_half_even_int: "round_half_even (of_int k) = k"
  by (simp add: round_half_even_def)

lemma round_half_even_nearest:
  "\<bar>of_int (round_half_even y) - y\<bar> \<le> \<bar>of_int j - y\<bar>"
proof (cases "j = round_half_even y")
  case True
  then show ?thesis by simp
next
  case False
  then have "1 \<le> \<bar>j - round_half_even y\<bar>" by linarith
  then have "(1::real) \<le> of_int \<bar>j - round_half_even y\<bar>"
    by (simp only: of_int_1_le_iff)
  then have "1 \<le> \<bar>of_int j - (of_int (round_half_even y) :: real)\<bar>"
    by simp
  with round_half_even_near [of y] show ?thesis
    by linarith
qed

lemma expo_less: "0 < x \<Longrightarrow> x < 2 powi k \<Longrightarrow> expo x < k"
proof (rule ccontr)
  assume x: "0 < x" "x < 2 powi k" and "\<not> expo x < k"
  then have "k \<le> expo x" by simp
  then have "(2::real) powi k \<le> 2 powi (expo x)"
    by (rule power_int_increasing) simp
  with expo_bounds(1) [OF x(1)] x(2) show False by linarith
qed

lemma expo_ge: "0 < x \<Longrightarrow> 2 powi k \<le> x \<Longrightarrow> k \<le> expo x"
proof (rule ccontr)
  assume x: "0 < x" "2 powi k \<le> x" and "\<not> k \<le> expo x"
  then have "expo x + 1 \<le> k" by simp
  then have "(2::real) powi (expo x + 1) \<le> 2 powi k"
    by (rule power_int_increasing) simp
  with expo_bounds(2) [OF x(1)] x(2) show False by linarith
qed

lemma quantum_lower: "- 1074 \<le> quantum x"
  by (simp add: quantum_def)

lemma quantum_upper:
  assumes "x \<noteq> 0"
  shows "\<bar>x\<bar> < 2 powi (quantum x + 53)"
proof -
  from assms have "\<bar>x\<bar> < 2 powi (expo \<bar>x\<bar> + 1)"
    by (intro expo_bounds(2)) simp
  also have "\<dots> \<le> 2 powi (quantum x + 53)"
    by (rule power_int_increasing) (simp_all add: quantum_def)
  finally show ?thesis .
qed

lemma quantum_normal:
  assumes "x \<noteq> 0" and "- 1022 \<le> expo \<bar>x\<bar>"
  shows "quantum x = expo \<bar>x\<bar> - 52" and "2 powi (quantum x + 52) \<le> \<bar>x\<bar>"
proof -
  from assms(2) show q: "quantum x = expo \<bar>x\<bar> - 52"
    by (simp add: quantum_def)
  from assms(1) have "2 powi (expo \<bar>x\<bar>) \<le> \<bar>x\<bar>"
    by (intro expo_bounds(1)) simp
  then show "2 powi (quantum x + 52) \<le> \<bar>x\<bar>"
    by (simp add: q)
qed

lemma quantum_le:
  assumes "x \<noteq> 0" and "\<bar>x\<bar> < 2 powi (e + 53)" and "- 1074 \<le> e"
  shows "quantum x \<le> e"
proof -
  from assms(1,2) have "expo \<bar>x\<bar> < e + 53"
    by (intro expo_less) simp_all
  with assms(3) show ?thesis
    by (simp add: quantum_def)
qed

lemma scaled_int:
  assumes "q \<le> e"
  shows "of_int m * 2 powi e / 2 powi q = (of_int (m * 2 ^ nat (e - q)) :: real)"
proof -
  have "(2::real) powi e = 2 powi q * 2 powi (e - q)"
    by (simp flip: power_int_add)
  moreover have "(2::real) powi (e - q) = 2 ^ nat (e - q)"
    using assms by (simp add: power_int_nonneg_exp)
  ultimately show ?thesis
    by simp
qed

subsection \<open>Doubles by mantissa and exponent\<close>

text \<open>The doubles are the reals \<open>m * 2 powi e\<close> with \<open>\<bar>m\<bar> < 2 ^ 53\<close> and \<open>- 1074 \<le> e \<le> 971\<close>.\<close>

lemma is_double_repr:
  assumes "is_double x"
  shows "\<exists>m e. \<bar>m\<bar> < 2 ^ 53 \<and> - 1074 \<le> e \<and> e \<le> 971 \<and> x = of_int m * 2 powi e"
proof (cases "x = 0")
  case True
  then have "\<bar>0::int\<bar> < 2 ^ 53 \<and> - 1074 \<le> (0::int) \<and> (0::int) \<le> 971 \<and> x = of_int 0 * 2 powi 0"
    by simp
  then show ?thesis by blast
next
  case False
  define q where "q = quantum x"
  define m where "m = \<lfloor>x / 2 powi q\<rfloor>"
  from assms False have lt: "\<bar>x\<bar> < 2 powi 1024" and int: "of_int m = x / 2 powi q"
    by (simp_all add: is_double_def q_def m_def)
  from int have x: "x = of_int m * 2 powi q"
    by (simp add: field_simps)
  have "\<bar>x\<bar> < 2 powi (q + 53)"
    unfolding q_def using False by (rule quantum_upper)
  also have "\<dots> = 2 powi q * 2 ^ 53"
    by (simp add: power_int_add)
  finally have "\<bar>x\<bar> / 2 powi q < 2 ^ 53"
    by (simp add: field_simps)
  then have "\<bar>(of_int m :: real)\<bar> < 2 ^ 53"
    by (simp add: int)
  then have "(of_int \<bar>m\<bar> :: real) < of_int (2 ^ 53)"
    by simp
  then have m53: "\<bar>m\<bar> < 2 ^ 53"
    by (simp only: of_int_less_iff)
  from lt False have "expo \<bar>x\<bar> < 1024"
    by (intro expo_less) simp_all
  then have "q \<le> 971"
    by (simp add: q_def quantum_def)
  with m53 x quantum_lower [of x] show ?thesis
    unfolding q_def by blast
qed

lemma is_double_of_repr:
  assumes "\<bar>m\<bar> < 2 ^ 53" and "- 1074 \<le> e" and "e \<le> 971"
  shows "is_double (of_int m * 2 powi e)"
proof -
  define x :: real where "x = of_int m * 2 powi e"
  from assms(1) have "\<bar>m\<bar> + 1 \<le> 2 ^ 53" by simp
  then have "(of_int (\<bar>m\<bar> + 1) :: real) \<le> of_int (2 ^ 53)"
    by (simp only: of_int_le_iff)
  then have m: "\<bar>of_int m :: real\<bar> < 2 ^ 53"
    by simp
  have ax: "\<bar>x\<bar> = \<bar>of_int m\<bar> * 2 powi e"
    by (simp add: x_def abs_mult)
  have "\<bar>x\<bar> < 2 ^ 53 * 2 powi e"
    unfolding ax using m by (intro mult_strict_right_mono) simp_all
  also have "\<dots> = 2 powi (e + 53)"
    by (simp add: power_int_add)
  finally have up: "\<bar>x\<bar> < 2 powi (e + 53)" .
  also have "\<dots> \<le> 2 powi 1024"
    using assms(3) by (intro power_int_increasing) simp_all
  finally have lt: "\<bar>x\<bar> < 2 ^ 1024" by simp
  have "x = 0 \<or> of_int \<lfloor>x / 2 powi quantum x\<rfloor> = x / 2 powi quantum x"
  proof (cases "x = 0")
    case True
    then show ?thesis ..
  next
    case False
    from False up assms(2) have "quantum x \<le> e" by (rule quantum_le)
    then have "x / 2 powi quantum x = of_int (m * 2 ^ nat (e - quantum x))"
      unfolding x_def by (rule scaled_int)
    then show ?thesis by simp
  qed
  with lt show ?thesis
    by (simp add: is_double_def x_def)
qed

lemma is_double_iff:
  "is_double x \<longleftrightarrow>
     (\<exists>m e. \<bar>m\<bar> < 2 ^ 53 \<and> - 1074 \<le> e \<and> e \<le> 971 \<and> x = of_int m * 2 powi e)"
  using is_double_repr is_double_of_repr by blast

lemma round_double_exact:
  assumes "is_double x"
  shows "round_double x = Num x"
proof (cases "x = 0")
  case True
  then show ?thesis by (simp add: round_double_def)
next
  case False
  define q where "q = quantum x"
  define m where "m = \<lfloor>x / 2 powi q\<rfloor>"
  from assms False have lt: "\<bar>x\<bar> < 2 ^ 1024" and int: "of_int m = x / 2 powi q"
    by (simp_all add: is_double_def q_def m_def)
  from int have x: "of_int m * 2 powi q = x"
    by (simp add: field_simps)
  from int have r: "round_half_even (x / 2 powi q) = m"
    by (metis round_half_even_int)
  from x False have "m \<noteq> 0" by auto
  with lt x r False show ?thesis
    by (simp add: round_double_def Let_def flip: q_def)
qed

lemma round_double_Num:
  assumes "round_double x = Num r"
  shows "r = of_int (round_half_even (x / 2 powi quantum x)) * 2 powi quantum x"
    and "\<bar>r\<bar> < 2 ^ 1024"
  using assms
  by (auto simp add: round_double_def Let_def round_half_even_int [of 0, simplified]
      split: if_splits)

subsection \<open>The rounded value is a nearest double\<close>

lemma mantissa_upper:
  assumes "x \<noteq> 0"
  shows "\<bar>round_half_even (x / 2 powi quantum x)\<bar> \<le> 2 ^ 53"
proof -
  define y where "y = x / 2 powi quantum x"
  have "\<bar>x\<bar> < 2 powi (quantum x + 53)"
    using assms by (rule quantum_upper)
  also have "\<dots> = 2 powi quantum x * 2 ^ 53"
    by (simp add: power_int_add)
  finally have "\<bar>x\<bar> / 2 powi quantum x < 2 ^ 53"
    by (simp add: field_simps)
  then have "\<bar>y\<bar> < 2 ^ 53"
    by (simp add: y_def)
  with round_half_even_near [of y]
  have "\<bar>of_int (round_half_even y) :: real\<bar> < 2 ^ 53 + 1"
    by linarith
  then have "(of_int \<bar>round_half_even y\<bar> :: real) < of_int (2 ^ 53 + 1)"
    by simp
  then have "\<bar>round_half_even y\<bar> < 2 ^ 53 + 1"
    by (simp only: of_int_less_iff)
  then show ?thesis
    by (simp add: y_def)
qed

lemma mantissa_lower:
  assumes "x \<noteq> 0" and "- 1022 \<le> expo \<bar>x\<bar>"
  shows "2 ^ 52 \<le> \<bar>round_half_even (x / 2 powi quantum x)\<bar>"
proof -
  define y where "y = x / 2 powi quantum x"
  have "2 powi quantum x * 2 ^ 52 = (2::real) powi (quantum x + 52)"
    by (simp add: power_int_add)
  also have "\<dots> \<le> \<bar>x\<bar>"
    using assms by (rule quantum_normal(2))
  finally have "2 ^ 52 \<le> \<bar>x\<bar> / 2 powi quantum x"
    by (simp add: field_simps)
  then have "2 ^ 52 \<le> \<bar>y\<bar>"
    by (simp add: y_def)
  with round_half_even_near [of y]
  have "2 ^ 52 - 1 < \<bar>of_int (round_half_even y) :: real\<bar>"
    by linarith
  then have "(of_int (2 ^ 52 - 1) :: real) < of_int \<bar>round_half_even y\<bar>"
    by simp
  then have "2 ^ 52 - 1 < \<bar>round_half_even y\<bar>"
    by (simp only: of_int_less_iff)
  then show ?thesis
    by (simp add: y_def)
qed

lemma round_double_grid:
  assumes "round_double x = Num r"
  shows "\<bar>r - x\<bar> \<le> \<bar>of_int j * 2 powi quantum x - x\<bar>"
proof -
  define q where "q = quantum x"
  define y where "y = x / 2 powi q"
  have p: "0 < (2::real) powi q" by simp
  from round_double_Num(1) [OF assms]
  have r: "r = of_int (round_half_even y) * 2 powi q"
    by (simp add: q_def y_def)
  have eq: "\<bar>a * 2 powi q - x\<bar> = \<bar>a - y\<bar> * 2 powi q" for a
  proof -
    have "a * 2 powi q - x = (a - y) * 2 powi q"
      by (simp add: y_def left_diff_distrib)
    then show ?thesis
      by (simp add: abs_mult)
  qed
  have "\<bar>r - x\<bar> = \<bar>of_int (round_half_even y) - y\<bar> * 2 powi q"
    unfolding r by (rule eq)
  also have "\<dots> \<le> \<bar>of_int j - y\<bar> * 2 powi q"
    using p round_half_even_nearest [of y j] by (intro mult_right_mono) simp_all
  also have "\<dots> = \<bar>of_int j * 2 powi q - x\<bar>"
    by (rule eq [symmetric])
  finally show ?thesis
    by (simp add: q_def)
qed

lemma round_double_nearest:
  assumes "round_double x = Num r" and "is_double d"
  shows "\<bar>r - x\<bar> \<le> \<bar>d - x\<bar>"
proof (cases "x = 0")
  case True
  with assms(1) show ?thesis by (simp add: round_double_def)
next
  case False
  define q where "q = quantum x"
  from is_double_repr [OF assms(2)] obtain k e where
    d: "\<bar>k\<bar> < 2 ^ 53" "- 1074 \<le> e" "e \<le> 971" "d = of_int k * 2 powi e"
    by blast
  show ?thesis
  proof (cases "q \<le> e")
    case True
    then have "d / 2 powi q = of_int (k * 2 ^ nat (e - q))"
      unfolding d(4) by (rule scaled_int)
    then have "d = of_int (k * 2 ^ nat (e - q)) * 2 powi q"
      by (simp add: field_simps)
    with round_double_grid [OF assms(1), of "k * 2 ^ nat (e - q)"] show ?thesis
      by (simp add: q_def)
  next
    case False
    with d(2) have "- 1074 < q" by simp
    then have n: "- 1022 \<le> expo \<bar>x\<bar>"
      by (simp add: q_def quantum_def max_def split: if_splits)
    from d(1) have "\<bar>k\<bar> + 1 \<le> 2 ^ 53" by simp
    then have "(of_int (\<bar>k\<bar> + 1) :: real) \<le> of_int (2 ^ 53)"
      by (simp only: of_int_le_iff)
    then have k: "\<bar>of_int k :: real\<bar> < 2 ^ 53"
      by simp
    have "\<bar>d\<bar> = \<bar>of_int k\<bar> * 2 powi e"
      by (simp add: d(4) abs_mult)
    also have "\<dots> < 2 ^ 53 * 2 powi e"
      using k by (intro mult_strict_right_mono) simp_all
    also have "\<dots> = 2 powi (e + 53)"
      by (simp add: power_int_add)
    also have "\<dots> \<le> 2 powi (q + 52)"
      using False by (intro power_int_increasing) simp_all
    finally have dlt: "\<bar>d\<bar> < 2 powi (q + 52)" .
    have xge: "2 powi (q + 52) \<le> \<bar>x\<bar>"
      unfolding q_def using \<open>x \<noteq> 0\<close> n by (rule quantum_normal(2))
    have b: "(2::real) powi (q + 52) = of_int (2 ^ 52) * 2 powi q"
      by (simp add: power_int_add)
    show ?thesis
    proof (cases "0 < x")
      case True
      from round_double_grid [OF assms(1), of "2 ^ 52"] b
      have "\<bar>r - x\<bar> \<le> \<bar>2 powi (q + 52) - x\<bar>"
        by (simp add: q_def)
      with True xge dlt show ?thesis by linarith
    next
      case False
      from round_double_grid [OF assms(1), of "- (2 ^ 52)"] b
      have "\<bar>r - x\<bar> \<le> \<bar>- (2 powi (q + 52)) - x\<bar>"
        by (simp add: q_def)
      with False xge dlt show ?thesis by linarith
    qed
  qed
qed

lemma round_double_is_double:
  assumes "round_double x = Num r"
  shows "is_double r"
proof (cases "x = 0")
  case True
  with assms have "r = of_int 0 * 2 powi 0" by (simp add: round_double_def)
  moreover have "is_double (of_int 0 * 2 powi 0)"
    by (rule is_double_of_repr) simp_all
  ultimately show ?thesis by simp
next
  case False
  define q where "q = quantum x"
  define m where "m = round_half_even (x / 2 powi q)"
  from round_double_Num [OF assms]
  have r: "r = of_int m * 2 powi q" and lt: "\<bar>r\<bar> < 2 powi 1024"
    by (simp_all add: q_def m_def)
  have ar: "\<bar>r\<bar> = of_int \<bar>m\<bar> * 2 powi q"
    by (simp add: r abs_mult)
  from mantissa_upper [OF False] have mu: "\<bar>m\<bar> \<le> 2 ^ 53"
    by (simp add: q_def m_def)
  have ql: "- 1074 \<le> q"
    unfolding q_def by (rule quantum_lower)
  show ?thesis
  proof (cases "\<bar>m\<bar> < 2 ^ 53")
    case True
    have "q \<le> 971"
    proof (cases "- 1022 \<le> expo \<bar>x\<bar>")
      case True
      from mantissa_lower [OF False True] have "2 ^ 52 \<le> \<bar>m\<bar>"
        by (simp add: q_def m_def)
      then have "(of_int (2 ^ 52) :: real) \<le> of_int \<bar>m\<bar>"
        by (simp only: of_int_le_iff)
      then have "(2 ^ 52 :: real) * 2 powi q \<le> of_int \<bar>m\<bar> * 2 powi q"
        by (intro mult_right_mono) simp_all
      with ar lt have "(2 ^ 52 :: real) * 2 powi q < 2 powi 1024"
        by linarith
      then have "(2::real) powi (q + 52) < 2 powi 1024"
        by (simp add: power_int_add)
      then have "q + 52 < 1024"
        by (rule power_int_le_imp_less_exp [rotated]) simp_all
      then show ?thesis by simp
    next
      case False
      then show ?thesis
        by (simp add: q_def quantum_def)
    qed
    with True ql show ?thesis
      unfolding r by (intro is_double_of_repr)
  next
    case False
    with mu have m: "\<bar>m\<bar> = 2 ^ 53" by simp
    with ar lt have "(2 ^ 53 :: real) * 2 powi q < 2 powi 1024"
      by simp
    then have "(2::real) powi (q + 53) < 2 powi 1024"
      by (simp add: power_int_add)
    then have "q + 53 < 1024"
      by (rule power_int_le_imp_less_exp [rotated]) simp_all
    then have q1: "q + 1 \<le> 971" by simp
    from m have "even \<bar>m\<bar>" by simp
    then have "even m" by simp
    then have m2: "m = 2 * (m div 2)" by simp
    from m have "\<bar>m div 2\<bar> < 2 ^ 53"
      by (simp add: abs_if split: if_splits)
    have "r = of_int (2 * (m div 2)) * 2 powi q"
      using r m2 by simp
    also have "\<dots> = of_int (m div 2) * 2 powi (q + 1)"
      by (simp add: power_int_add)
    finally have "r = of_int (m div 2) * 2 powi (q + 1)" .
    moreover from \<open>\<bar>m div 2\<bar> < 2 ^ 53\<close> ql q1 have "is_double (of_int (m div 2) * 2 powi (q + 1))"
      by (intro is_double_of_repr) simp_all
    ultimately show ?thesis by simp
  qed
qed

lemma round_double_finite:
  assumes "0 \<le> x" and "x < 2 ^ 1023"
  shows "\<exists>r. round_double x = Num r"
proof (cases "x = 0")
  case True
  then show ?thesis by (simp add: round_double_def)
next
  case False
  with assms have pos: "0 < x" by simp
  define q where "q = quantum x"
  define m where "m = round_half_even (x / 2 powi q)"
  from pos assms(2) have "expo x < 1023"
    by (intro expo_less) simp_all
  with pos have "q + 53 \<le> 1023"
    by (simp add: q_def quantum_def)
  then have "(2::real) powi (q + 53) \<le> 2 powi 1023"
    by (intro power_int_increasing) simp_all
  moreover from mantissa_upper [OF False] have "\<bar>m\<bar> \<le> 2 ^ 53"
    by (simp add: q_def m_def)
  then have "(of_int \<bar>m\<bar> :: real) \<le> of_int (2 ^ 53)"
    by (simp only: of_int_le_iff)
  then have "of_int \<bar>m\<bar> * 2 powi q \<le> (2 ^ 53 :: real) * 2 powi q"
    by (intro mult_right_mono) simp_all
  moreover have "(2 ^ 53 :: real) * 2 powi q = 2 powi (q + 53)"
    by (simp add: power_int_add)
  moreover have "(2::real) powi 1023 < 2 ^ 1024"
    by simp
  moreover have "\<bar>of_int m * 2 powi q\<bar> = (of_int \<bar>m\<bar> :: real) * 2 powi q"
    by (simp add: abs_mult)
  ultimately have "\<bar>of_int m * 2 powi q\<bar> < (2::real) ^ 1024"
    by linarith
  with pos show ?thesis
    by (simp add: round_double_def Let_def flip: q_def m_def)
qed

subsection \<open>Division\<close>

lemma round_double_overflow:
  assumes "2 ^ 1024 \<le> x"
  shows "round_double x = PosInfinity"
proof -
  from assms have pos: "0 < x" and nz: "x \<noteq> 0"
    by (simp_all add: less_le_trans [of 0 "2 ^ 1024" x])
  define q where "q = quantum x"
  define m where "m = round_half_even (x / 2 powi q)"
  from assms pos have e: "1024 \<le> expo \<bar>x\<bar>"
    by (intro expo_ge) simp_all
  then have n: "- 1022 \<le> expo \<bar>x\<bar>" by simp
  from e have "(2::real) powi 1024 \<le> 2 powi (q + 52)"
    unfolding q_def quantum_normal(1) [OF nz n] by (intro power_int_increasing) simp_all
  moreover have "(2::real) powi (q + 52) = of_int (2 ^ 52) * 2 powi q"
    by (simp add: power_int_add)
  moreover from mantissa_lower [OF nz n] have "2 ^ 52 \<le> \<bar>m\<bar>"
    by (simp add: q_def m_def)
  then have "(of_int (2 ^ 52) :: real) \<le> of_int \<bar>m\<bar>"
    by (simp only: of_int_le_iff)
  then have "(of_int (2 ^ 52) :: real) * 2 powi q \<le> of_int \<bar>m\<bar> * 2 powi q"
    by (intro mult_right_mono) simp_all
  moreover have "\<bar>of_int m * 2 powi q\<bar> = (of_int \<bar>m\<bar> :: real) * 2 powi q"
    by (simp add: abs_mult)
  moreover have "(2::real) powi 1024 = 2 ^ 1024"
    by simp
  ultimately have "2 ^ 1024 \<le> \<bar>of_int m * 2 powi q :: real\<bar>"
    by linarith
  with pos show ?thesis
    by (simp add: round_double_def Let_def flip: q_def m_def)
qed

lemma round_double_underflow:
  assumes "0 < x" and "x < 2 powi (- 1075)"
  shows "round_double x = Num 0"
proof -
  from assms have "expo x < - 1075" by (rule expo_less)
  with assms(1) have q: "quantum x = - 1074"
    by (simp add: quantum_def)
  have "(2::real) powi (- 1075) = 2 powi (- 1074) * (1 / 2)"
    by (simp add: power_int_minus field_simps)
  with assms(2) have "x / 2 powi (- 1074) < 1 / 2"
    by (simp add: field_simps)
  moreover from assms(1) have "0 < x / 2 powi (- 1074)"
    by simp
  ultimately have f: "\<lfloor>x / 2 powi (- 1074)\<rfloor> = 0" "x / 2 powi (- 1074) < 1 / 2"
    by (simp_all add: floor_eq_iff)
  then have "round_half_even (x / 2 powi (- 1074)) = 0"
    by (simp add: round_half_even_def)
  with assms(1) q show ?thesis
    by (simp add: round_double_def)
qed

lemma js_div_finite:
  "a \<noteq> 0 \<Longrightarrow> b \<noteq> 0 \<Longrightarrow> js_div (Num a) (Num b) = round_double (a / b)"
  by (simp add: js_div_def)

lemma js_div_nonneg:
  assumes "0 \<le> a" and "0 < b"
  shows "js_div (Num a) (Num b) = round_double (a / b)"
  using assms by (cases "a = 0") (simp_all add: js_div_def signed_zero_def round_double_def)

lemma js_div_Num:
  assumes "js_div (Num a) (Num b) = Num r"
  shows "is_double r" and "is_double d \<Longrightarrow> \<bar>r - a / b\<bar> \<le> \<bar>d - a / b\<bar>"
proof -
  from assms have b: "b \<noteq> 0"
    by (auto simp add: js_div_def signed_infinity_def split: if_splits)
  have "round_double (a / b) = Num r"
  proof (cases "a = 0")
    case True
    with assms b have "r = 0"
      by (auto simp add: js_div_def signed_zero_def split: if_splits)
    with True show ?thesis by (simp add: round_double_def)
  next
    case False
    with assms b show ?thesis by (simp add: js_div_finite)
  qed
  then show "is_double r" and "is_double d \<Longrightarrow> \<bar>r - a / b\<bar> \<le> \<bar>d - a / b\<bar>"
    by (rule round_double_is_double, rule round_double_nearest)
qed

lemma js_div_2000: "js_div (Num 2000) (Num 2000) = Num 1"
  by (simp add: num_defs round_defs)

lemma js_div_2000_1000: "js_div (Num 2000) (Num 1000) = Num 2"
  by (simp add: num_defs round_defs)

lemma js_div_0: "0 < b \<Longrightarrow> js_div (Num 0) (Num b) = Num 0"
  by (simp add: num_defs)

lemma js_div_6283:
  "js_div (Num 6283) (Num 2000) = Num (7074029114692207 / 2251799813685248)"
  "js_div (Num 6283) (Num 1000) = Num (7074029114692207 / 1125899906842624)"
  by (simp_all add: num_defs round_defs)

lemma js_div_16:
  "js_div (Num 16) (Num 2000) = Num (1152921504606847 / 144115188075855872)"
  "js_div (Num 16) (Num 1000) = Num (1152921504606847 / 72057594037927936)"
  by (simp_all add: num_defs round_defs)

lemma js_div_800_600:
  "js_div (Num 800) (Num 600) = Num (6004799503160661 / 4503599627370496)"
  by (simp add: num_defs round_defs)

lemma js_div_extremes:
  "js_div (Num (2 ^ 1023)) (Num (1 / 4)) = PosInfinity"
  "js_div (Num (1 / 2 ^ 1074)) (Num 2000) = Num 0"
proof -
  have "(2::real) ^ 1024 \<le> 2 ^ 1023 / (1 / 4)" by simp
  then show "js_div (Num (2 ^ 1023)) (Num (1 / 4)) = PosInfinity"
    by (simp add: js_div_finite round_double_overflow del: power_numeral)
  have "(1 / 2 ^ 1074 / 2000 :: real) < 2 powi (- 1075)"
    by (simp add: power_int_minus field_simps)
  then show "js_div (Num (1 / 2 ^ 1074)) (Num 2000) = Num 0"
    by (simp add: js_div_finite round_double_underflow)
qed

lemma js_add_10_1: "js_add (Num 10) (Num 1) = Num 11"
  by (simp add: num_defs round_defs)

lemma js_sub_10_1: "js_sub (Num 10) (Num 1) = Num 9"
  by (simp add: num_defs round_defs)

text \<open>The numeric constants of the program are doubles.\<close>

lemma constants_are_doubles:
  "is_double 45" "is_double 1" "is_double 1000" "is_double 0" "is_double 10" "is_double 17"
  "is_double (1 / 2)" "is_double 5" "is_double 16777215" "is_double 16766720"
  "is_double 2000"
  by (simp_all add: is_double_def round_defs)

section \<open>Unfolding and sequencing\<close>

lemmas consts_defs = FOV_def NEAR_def FAR_def CAMERA_X_def CAMERA_Y_def CAMERA_Z_def MODEL_X_def MODEL_Y_def MODEL_Z_def
  MODEL_SCALE_def BACKGROUND_IMG_PATH_def MODEL_GLTF_PATH_def LIGHT_INTENSITY_def AMBIENT_COLOR_def DIRECTIONAL_COLOR_def
  ROTATE_X_DELAY_def ROTATE_Y_DELAY_def

lemmas lib_defs = Object3D_def alloc_def new_object_def update_object_def vector3_set_def position_set_def scale_set_def
  set_rotation_x_def set_rotation_y_def set_background_def scene_add_def render_def update_renderer_def log_call_def then_do_def
  js_add_10_1 js_sub_10_1 placed_def

lemma seq_append: "seq (fs @ gs) s = then_do (seq fs s) (seq gs)"
  by (induction fs arbitrary: s) (simp_all add: then_do_def split: outcome.splits)

section \<open>The states the program reaches\<close>

text \<open>
  \<open>init\<close> returns in a \<open>loading\<close> state. A frame keeps \<open>loading\<close> and \<open>loaded\<close> and logs one
  draw; the loader's answer takes \<open>loading\<close> to \<open>loaded\<close> and can come only once.
\<close>

lemma app_js_loading: "\<exists>s. app_js w h = Returns s \<and> loading w h s"
  by (simp add: app_js_def init_def initial_state_def createScene_def configureCamera_def setUpLight_def addModel_def
      renderScene_def lib_defs consts_defs loading_def ready_def)

lemma app_js_calls:
  "calls (state_of (app_js w h)) =
     [New (Scene None), TextureLoaderLoad ''materials/space.jpg'',
      New (PerspectiveCamera (Num 45) (js_div w h) (Num 1) (Num 1000)),
      New (AmbientLight (Num 16777215) (Num 5)), Add 0 2,
      New (DirectionalLight (Num 16766720) (Num 5)), Add 0 3,
      New (DirectionalLight (Num 16766720) (Num 5)), Add 0 4,
      GLTFLoaderLoad ''materials/shine.gltf'' OnModelLoaded,
      NewWebGLRenderer True, SetSize w h, SetAnimationLoop Animate, AppendChild]"
  by (simp add: app_js_def init_def initial_state_def createScene_def configureCamera_def setUpLight_def addModel_def
      renderScene_def lib_defs consts_defs)

lemma frame_loading:
  assumes "loading w h s"
  shows "\<exists>s'. host_step (Frame t) s = Returns s' \<and> loading w h s' \<and>
           calls s' = calls s @ [Render (Some 0) (Some 1)]"
  using assms
  by (simp add: loading_def ready_def animate_def lib_defs)

lemma frame_loaded:
  assumes "loaded w h g s"
  shows "\<exists>s'. host_step (Frame t) s = Returns s' \<and> loaded w h g s' \<and>
           calls s' = calls s @ [Render (Some 0) (Some 1)]"
  using assms
  by (auto simp add: loaded_def ready_def animate_def lib_defs consts_defs split: option.splits)

lemma load_loading:
  assumes "loading w h s"
  shows "\<exists>s'. host_step (Loaded g) s = Returns s' \<and> loaded w h g s' \<and>
           calls s' = calls s @ [Add 0 5]"
  using assms
  by (auto simp add: loading_def loaded_def ready_def addModel_onLoad_def lib_defs consts_defs)

lemma load_loaded:
  assumes "loaded w h g s"
  shows "host_step (Loaded g') s = Returns s"
  using assms
  by (simp add: loaded_def)

lemma run_loaded:
  "loaded w h g s \<Longrightarrow>
   \<exists>s'. run es s = Returns s' \<and> loaded w h g s' \<and>
     draws s' = draws s @ replicate (length (filter is_frame es)) (Render (Some 0) (Some 1))"
proof (induction es arbitrary: s)
  case Nil
  then show ?case by (simp add: run_def)
next
  case (Cons e es)
  show ?case
  proof (cases e)
    case (Frame t)
    from frame_loaded [OF Cons.prems] obtain s1
      where s1: "host_step (Frame t) s = Returns s1" "loaded w h g s1"
        "calls s1 = calls s @ [Render (Some 0) (Some 1)]" by blast
    from Cons.IH [OF s1(2)] s1(1,3) Frame show ?thesis
      by (auto simp add: run_def then_do_def draws_def)
  next
    case (Loaded g')
    from Cons.IH [OF Cons.prems] load_loaded [OF Cons.prems] Loaded show ?thesis
      by (simp add: run_def then_do_def)
  qed
qed

lemma run_loading:
  "loading w h s \<Longrightarrow>
   \<exists>s'. run es s = Returns s' \<and>
     (case first_load es of None \<Rightarrow> loading w h s' | Some g \<Rightarrow> loaded w h g s') \<and>
     draws s' = draws s @ replicate (length (filter is_frame es)) (Render (Some 0) (Some 1))"
proof (induction es arbitrary: s)
  case Nil
  then show ?case by (simp add: run_def)
next
  case (Cons e es)
  show ?case
  proof (cases e)
    case (Frame t)
    from frame_loading [OF Cons.prems] obtain s1
      where s1: "host_step (Frame t) s = Returns s1" "loading w h s1"
        "calls s1 = calls s @ [Render (Some 0) (Some 1)]" by blast
    from Cons.IH [OF s1(2)] s1(1,3) Frame show ?thesis
      by (auto simp add: run_def then_do_def draws_def)
  next
    case (Loaded g)
    from load_loading [OF Cons.prems] obtain s1
      where s1: "host_step (Loaded g) s = Returns s1" "loaded w h g s1"
        "calls s1 = calls s @ [Add 0 5]" by blast
    from run_loaded [OF s1(2)] s1(1,3) Loaded show ?thesis
      by (auto simp add: run_def then_do_def draws_def)
  qed
qed

lemma reachable:
  "\<exists>s. run es (state_of (app_js w h)) = Returns s \<and>
     (case first_load es of None \<Rightarrow> loading w h s | Some g \<Rightarrow> loaded w h g s) \<and>
     draws s = replicate (length (filter is_frame es)) (Render (Some 0) (Some 1))"
proof -
  from app_js_loading obtain s0 where s0: "app_js w h = Returns s0" "loading w h s0"
    by blast
  have "draws s0 = []"
    using app_js_calls [of w h] s0(1) by (simp add: draws_def)
  with run_loading [OF s0(2), of es] s0(1) show ?thesis
    by simp
qed

lemma loading_view:
  assumes "loading w h s"
  shows "scene_children s = [2, 3, 4]"
    and "deref (camera s) s =
           Some (placed (PerspectiveCamera (Num 45) (js_div w h) (Num 1) (Num 1000)) 0 10 17)"
    and "lights s =
           [placed (AmbientLight (Num 16777215) (Num 5)) 0 10 10,
            placed (DirectionalLight (Num 16766720) (Num 5)) 0 10 11,
            placed (DirectionalLight (Num 16766720) (Num 5)) 0 10 9]"
  using assms
  by (simp_all add: loading_def ready_def scene_children_def deref_def lights_def
      is_light_def placed_def)

lemma loaded_view:
  assumes "loaded w h g s"
  shows "scene_children s = [2, 3, 4, 5]"
    and "deref (camera s) s =
           Some (placed (PerspectiveCamera (Num 45) (js_div w h) (Num 1) (Num 1000)) 0 10 17)"
    and "lights s =
           [placed (AmbientLight (Num 16777215) (Num 5)) 0 10 10,
            placed (DirectionalLight (Num 16766720) (Num 5)) 0 10 11,
            placed (DirectionalLight (Num 16766720) (Num 5)) 0 10 9]"
  using assms
  by (auto simp add: loaded_def ready_def scene_children_def deref_def lights_def
      is_light_def placed_def split: option.splits)

lemma reachable_ok:
  "\<exists>s. run es (state_of (app_js w h)) = Returns s \<and> renderer s \<noteq> None \<and> model_ok s \<and>
     (first_load es = None \<longrightarrow> model s = None)"
proof -
  from reachable [of es w h] obtain s where
    s: "run es (state_of (app_js w h)) = Returns s"
      "case first_load es of None \<Rightarrow> loading w h s | Some g \<Rightarrow> loaded w h g s"
    by blast
  then show ?thesis
    by (cases "first_load es")
       (auto simp add: loading_def loaded_def ready_def model_ok_def split: option.splits)
qed

lemma reachable_loaded:
  assumes "first_load es = Some g"
  shows "\<exists>s ob. run es (state_of (app_js w h)) = Returns s \<and> model s = Some 5 \<and>
     heap s 5 = Some ob \<and> renderer s \<noteq> None \<and> euler_z (rotation ob) = euler_z (rotation g)"
proof -
  from reachable [of es w h] assms obtain s where
    s: "run es (state_of (app_js w h)) = Returns s" "loaded w h g s"
    by auto
  then show ?thesis
    by (auto simp add: loaded_def ready_def split: option.splits)
qed

section \<open>Single calls\<close>

lemma setUpLight_result:
  assumes "scene s = Some sc" and "heap s sc = Some sob" and "sc < next_ref s"
  shows "\<exists>s'. setUpLight s = Returns s' \<and> scene s' = Some sc \<and>
     heap s' sc = Some (sob\<lparr>children := children sob @ [next_ref s, next_ref s + 1, next_ref s + 2]\<rparr>) \<and>
     heap s' (next_ref s) = Some (placed (AmbientLight (Num 16777215) (Num 5)) 0 10 10) \<and>
     heap s' (next_ref s + 1) = Some (placed (DirectionalLight (Num 16766720) (Num 5)) 0 10 11) \<and>
     heap s' (next_ref s + 2) = Some (placed (DirectionalLight (Num 16766720) (Num 5)) 0 10 9) \<and>
     calls s' = calls s @
       [New (AmbientLight (Num 16777215) (Num 5)), Add sc (next_ref s),
        New (DirectionalLight (Num 16766720) (Num 5)), Add sc (next_ref s + 1),
        New (DirectionalLight (Num 16766720) (Num 5)), Add sc (next_ref s + 2)]"
  using assms
  by (simp add: setUpLight_def lib_defs consts_defs)

lemma animate_present:
  assumes "model s = Some m" and "heap s m = Some ob" and "renderer s = Some r"
  shows "\<exists>s'. animate time s = Returns s' \<and> model s' = Some m \<and> renderer s' = Some r \<and>
     heap s' m =
       Some (ob\<lparr>rotation := \<lparr>euler_x = js_div time (Num 2000), euler_y = js_div time (Num 1000),
                               euler_z = euler_z (rotation ob)\<rparr>\<rparr>)"
  using assms
  by (simp add: animate_def lib_defs consts_defs)

lemma animate_all_present:
  assumes "model s = Some m" and "heap s m = Some ob" and "renderer s = Some r"
  shows "\<exists>s' ob'. seq (map animate ts) s = Returns s' \<and> model s' = Some m \<and>
     renderer s' = Some r \<and> heap s' m = Some ob' \<and>
     euler_z (rotation ob') = euler_z (rotation ob)"
  using assms
proof (induction ts arbitrary: s ob)
  case Nil
  then show ?case by simp
next
  case (Cons t ts)
  from animate_present [OF Cons.prems, of t] obtain s1 where
    s1: "animate t s = Returns s1" "model s1 = Some m" "renderer s1 = Some r"
      "heap s1 m =
         Some (ob\<lparr>rotation := \<lparr>euler_x = js_div t (Num 2000), euler_y = js_div t (Num 1000),
                                 euler_z = euler_z (rotation ob)\<rparr>\<rparr>)"
    by blast
  from Cons.IH [OF s1(2,4,3)] s1(1) show ?case
    by (simp add: then_do_def)
qed

lemma animate_last:
  assumes "model s = Some m" and "heap s m = Some ob" and "renderer s = Some r"
  shows "\<exists>s'. seq (map animate (ts @ [time])) s = Returns s' \<and>
     model_rotation s' =
       Some \<lparr>euler_x = js_div time (Num 2000), euler_y = js_div time (Num 1000),
             euler_z = euler_z (rotation ob)\<rparr>"
proof -
  from animate_all_present [OF assms, of ts] obtain s1 ob1 where
    s1: "seq (map animate ts) s = Returns s1" "model s1 = Some m" "renderer s1 = Some r"
      "heap s1 m = Some ob1" "euler_z (rotation ob1) = euler_z (rotation ob)"
    by blast
  from animate_present [OF s1(2,4,3), of time] s1(1,5) show ?thesis
    by (auto simp add: seq_append then_do_def model_rotation_def deref_def)
qed

section \<open>The sample states\<close>

lemma sample_started_loading: "loading (Num 800) (Num 600) sample_started"
  using app_js_loading [of "Num 800" "Num 600"] by (auto simp add: sample_started_def)

lemma sample_loaded_loaded: "loaded (Num 800) (Num 600) (Object3D Group) sample_loaded"
  using run_loading [OF sample_started_loading, of "[Frame (Num 16), Loaded (Object3D Group)]"]
  by (auto simp add: sample_loaded_def)

lemma sample_before_lights_scene:
  "scene sample_before_lights = Some 0 \<and> next_ref sample_before_lights = 2 \<and>
   heap sample_before_lights 0 = Some (placed (Scene (Some (Texture ''materials/space.jpg''))) 0 0 0)"
  by (simp add: sample_before_lights_def initial_state_def createScene_def configureCamera_def
      lib_defs consts_defs)

section \<open>The claims\<close>

text \<open>
  Claim C1, as amended. When the variable \<open>model\<close> refers to an object, \<open>animate\<close> called with
  a time \<open>t \<ge> 0\<close> (a double) leaves that object with rotation \<open>t / 2000\<close> about the x axis and
  \<open>t / 1000\<close> about the y axis as JavaScript divides: each angle is a double nearest to the
  real quotient, and is the real quotient itself whenever that is a double. Nothing else
  enters the angle (no easing, no clamping), and it is set also when the draw that follows
  throws. At time 0 the two angles are 0 and 0, at time 2000 they are 1 and 2.

  The claim as stated, with the angles exactly \<open>t / 2000\<close> and \<open>t / 1000\<close> for every \<open>t \<ge> 0\<close>,
  fails: at \<open>t = 6283\<close> the quotients 3.1415 and 6.283 are not doubles, and the object gets
  \<open>7074029114692207 / 2 ^ 51\<close> and \<open>7074029114692207 / 2 ^ 50\<close>.
\<close>

theorem animate_sets_rotation:
  assumes "model s = Some m" and "heap s m = Some ob" and "0 \<le> t" and "is_double t"
  shows "(\<exists>rx ry.
            model_rotation (state_of (animate (Num t) s)) =
              Some \<lparr>euler_x = Num rx, euler_y = Num ry, euler_z = euler_z (rotation ob)\<rparr> \<and>
            Num rx = js_div (Num t) ROTATE_X_DELAY \<and> Num ry = js_div (Num t) ROTATE_Y_DELAY \<and>
            is_double rx \<and> is_double ry \<and>
            (\<forall>d. is_double d \<longrightarrow> \<bar>rx - t / 2000\<bar> \<le> \<bar>d - t / 2000\<bar>) \<and>
            (\<forall>d. is_double d \<longrightarrow> \<bar>ry - t / 1000\<bar> \<le> \<bar>d - t / 1000\<bar>) \<and>
            (is_double (t / 2000) \<longrightarrow> rx = t / 2000) \<and>
            (is_double (t / 1000) \<longrightarrow> ry = t / 1000)) \<and>
         model_rotation (state_of (animate (Num 0) s)) =
           Some \<lparr>euler_x = Num 0, euler_y = Num 0, euler_z = euler_z (rotation ob)\<rparr> \<and>
         model_rotation (state_of (animate (Num 2000) s)) =
           Some \<lparr>euler_x = Num 1, euler_y = Num 2, euler_z = euler_z (rotation ob)\<rparr>"
proof (intro conjI)
  have rot: "model_rotation (state_of (animate time s)) =
      Some \<lparr>euler_x = js_div time (Num 2000), euler_y = js_div time (Num 1000),
            euler_z = euler_z (rotation ob)\<rparr>" for time
    using assms(1,2)
    by (cases "renderer s")
       (simp_all add: animate_def model_rotation_def deref_def lib_defs consts_defs)
  from assms(4) have "\<bar>t\<bar> < 2 ^ 1024"
    by (simp add: is_double_def)
  with assms(3) have small: "t / 2000 < 2 ^ 1023" "t / 1000 < 2 ^ 1023"
    by simp_all
  from assms(3) have dx: "js_div (Num t) (Num 2000) = round_double (t / 2000)"
    and dy: "js_div (Num t) (Num 1000) = round_double (t / 1000)"
    by (simp_all add: js_div_nonneg)
  from assms(3) small round_double_finite [of "t / 2000"] round_double_finite [of "t / 1000"]
  obtain rx ry where r: "round_double (t / 2000) = Num rx" "round_double (t / 1000) = Num ry"
    by auto
  have "model_rotation (state_of (animate (Num t) s)) =
          Some \<lparr>euler_x = Num rx, euler_y = Num ry, euler_z = euler_z (rotation ob)\<rparr>"
    by (simp add: rot dx dy r)
  moreover have "Num rx = js_div (Num t) ROTATE_X_DELAY" "Num ry = js_div (Num t) ROTATE_Y_DELAY"
    by (simp_all add: consts_defs dx dy r)
  moreover have "is_double rx" "is_double ry"
    using r by (auto intro: round_double_is_double)
  moreover have "\<forall>d. is_double d \<longrightarrow> \<bar>rx - t / 2000\<bar> \<le> \<bar>d - t / 2000\<bar>"
    using r(1) by (auto intro: round_double_nearest)
  moreover have "\<forall>d. is_double d \<longrightarrow> \<bar>ry - t / 1000\<bar> \<le> \<bar>d - t / 1000\<bar>"
    using r(2) by (auto intro: round_double_nearest)
  moreover have "is_double (t / 2000) \<longrightarrow> rx = t / 2000"
    using r(1) by (auto dest: round_double_exact)
  moreover have "is_double (t / 1000) \<longrightarrow> ry = t / 1000"
    using r(2) by (auto dest: round_double_exact)
  ultimately show "\<exists>rx ry.
      model_rotation (state_of (animate (Num t) s)) =
        Some \<lparr>euler_x = Num rx, euler_y = Num ry, euler_z = euler_z (rotation ob)\<rparr> \<and>
      Num rx = js_div (Num t) ROTATE_X_DELAY \<and> Num ry = js_div (Num t) ROTATE_Y_DELAY \<and>
      is_double rx \<and> is_double ry \<and>
      (\<forall>d. is_double d \<longrightarrow> \<bar>rx - t / 2000\<bar> \<le> \<bar>d - t / 2000\<bar>) \<and>
      (\<forall>d. is_double d \<longrightarrow> \<bar>ry - t / 1000\<bar> \<le> \<bar>d - t / 1000\<bar>) \<and>
      (is_double (t / 2000) \<longrightarrow> rx = t / 2000) \<and>
      (is_double (t / 1000) \<longrightarrow> ry = t / 1000)"
    by blast
  show "model_rotation (state_of (animate (Num 0) s)) =
      Some \<lparr>euler_x = Num 0, euler_y = Num 0, euler_z = euler_z (rotation ob)\<rparr>"
    by (simp add: rot js_div_0)
  show "model_rotation (state_of (animate (Num 2000) s)) =
      Some \<lparr>euler_x = Num 1, euler_y = Num 2, euler_z = euler_z (rotation ob)\<rparr>"
    by (simp add: rot js_div_2000 js_div_2000_1000)
qed

theorem animate_sets_rotation_witness:
  "model_rotation (state_of (animate (Num 16) sample_loaded)) =
     Some \<lparr>euler_x = Num (1152921504606847 / 144115188075855872),
           euler_y = Num (1152921504606847 / 72057594037927936), euler_z = Num 0\<rparr> \<and>
   model_rotation (state_of (animate (Num 0) sample_loaded)) =
     Some \<lparr>euler_x = Num 0, euler_y = Num 0, euler_z = Num 0\<rparr> \<and>
   model_rotation (state_of (animate (Num 2000) sample_loaded)) =
     Some \<lparr>euler_x = Num 1, euler_y = Num 2, euler_z = Num 0\<rparr> \<and>
   \<bar>1152921504606847 / 144115188075855872 - 16 / 2000\<bar> \<le> \<bar>1 / 128 - 16 / 2000 :: real\<bar>"
proof -
  from sample_loaded_loaded obtain ob where
    m: "model sample_loaded = Some 5" and h: "heap sample_loaded 5 = Some ob"
    and z: "euler_z (rotation ob) = Num 0"
    by (auto simp add: loaded_def Object3D_def split: option.splits)
  have t: "(0::real) \<le> 16" "is_double 16"
    and u: "(0::real) \<le> 2000" "is_double 2000" "is_double (2000 / 2000)"
      "is_double (2000 / 1000)"
    and d: "is_double (1 / 128)"
    by (simp_all add: is_double_def round_defs)
  from animate_sets_rotation [OF m h t] obtain rx ry where
    a: "model_rotation (state_of (animate (Num 16) sample_loaded)) =
          Some \<lparr>euler_x = Num rx, euler_y = Num ry, euler_z = euler_z (rotation ob)\<rparr>"
      "Num rx = js_div (Num 16) ROTATE_X_DELAY" "Num ry = js_div (Num 16) ROTATE_Y_DELAY"
      "\<forall>d. is_double d \<longrightarrow> \<bar>rx - 16 / 2000\<bar> \<le> \<bar>d - 16 / 2000\<bar>"
    and b: "model_rotation (state_of (animate (Num 0) sample_loaded)) =
          Some \<lparr>euler_x = Num 0, euler_y = Num 0, euler_z = euler_z (rotation ob)\<rparr>"
    by blast
  from a(2,3) have r: "rx = 1152921504606847 / 144115188075855872"
      "ry = 1152921504606847 / 72057594037927936"
    by (simp_all add: consts_defs js_div_16)
  from animate_sets_rotation [OF m h u(1,2)] u(3,4) obtain sx sy where
    c: "model_rotation (state_of (animate (Num 2000) sample_loaded)) =
          Some \<lparr>euler_x = Num sx, euler_y = Num sy, euler_z = euler_z (rotation ob)\<rparr>"
      "sx = 2000 / 2000" "sy = 2000 / 1000"
    by blast
  from a(1,4) b c d r z show ?thesis
    by simp
qed

text \<open>The claim as stated fails at time 6283, with the model loaded.\<close>

theorem animate_sets_rotation_counterexample:
  "model_rotation (state_of (animate (Num 6283) sample_loaded)) \<noteq>
     Some \<lparr>euler_x = Num (6283 / 2000), euler_y = Num (6283 / 1000), euler_z = Num 0\<rparr>"
proof -
  from sample_loaded_loaded obtain ob where
    m: "model sample_loaded = Some 5" and h: "heap sample_loaded 5 = Some ob"
    by (auto simp add: loaded_def split: option.splits)
  then have "model_rotation (state_of (animate (Num 6283) sample_loaded)) =
      Some \<lparr>euler_x = js_div (Num 6283) (Num 2000), euler_y = js_div (Num 6283) (Num 1000),
            euler_z = euler_z (rotation ob)\<rparr>"
    by (cases "renderer sample_loaded")
       (simp_all add: animate_def model_rotation_def deref_def lib_defs consts_defs)
  then show ?thesis
    by (simp add: js_div_6283)
qed

text \<open>
  Claim C2. In a state where the renderer exists, \<open>animate\<close> with \<open>model\<close> undefined returns
  without throwing, and the state it returns is the state it was called in with exactly
  one draw of the scene from the camera added to the log: nothing else changes, whatever
  the time value. With \<open>model\<close> referring to an object it returns too and logs exactly that
  one draw. The renderer exists in every state the program reaches after \<open>init\<close>, where
  \<open>model\<close> is undefined or refers to an object, and undefined as long as the loader has
  not answered.
\<close>

theorem animate_without_model:
  "(renderer s \<noteq> None \<and> model s = None \<longrightarrow>
      animate time s = Returns (s\<lparr>calls := calls s @ [Render (scene s) (camera s)]\<rparr>)) \<and>
   (renderer s \<noteq> None \<and> model_ok s \<longrightarrow>
      (\<exists>s'. animate time s = Returns s' \<and>
             calls s' = calls s @ [Render (scene s) (camera s)])) \<and>
   (\<exists>s1. run es (state_of (app_js w h)) = Returns s1 \<and> renderer s1 \<noteq> None \<and> model_ok s1 \<and>
      (first_load es = None \<longrightarrow> model s1 = None))"
proof (intro conjI impI)
  assume "renderer s \<noteq> None \<and> model s = None"
  then show "animate time s = Returns (s\<lparr>calls := calls s @ [Render (scene s) (camera s)]\<rparr>)"
    by (auto simp add: animate_def lib_defs)
next
  assume "renderer s \<noteq> None \<and> model_ok s"
  then show "\<exists>s'. animate time s = Returns s' \<and>
             calls s' = calls s @ [Render (scene s) (camera s)]"
    by (auto simp add: animate_def model_ok_def lib_defs split: option.splits)
next
  show "\<exists>s1. run es (state_of (app_js w h)) = Returns s1 \<and> renderer s1 \<noteq> None \<and> model_ok s1 \<and>
      (first_load es = None \<longrightarrow> model s1 = None)"
    by (rule reachable_ok)
qed

theorem animate_without_model_witness:
  "animate (Num 16) sample_started =
     Returns (sample_started\<lparr>calls := calls sample_started @ [Render (Some 0) (Some 1)]\<rparr>) \<and>
   (\<exists>s'. animate (Num 16) sample_loaded = Returns s' \<and>
      calls s' = calls sample_loaded @ [Render (Some 0) (Some 1)]) \<and>
   (\<exists>s1. run [Frame (Num 16)] (state_of (app_js (Num 800) (Num 600))) = Returns s1 \<and>
      renderer s1 \<noteq> None \<and> model_ok s1 \<and> model s1 = None)"
proof -
  from sample_started_loading have
    a: "renderer sample_started \<noteq> None \<and> model sample_started = None"
    and b: "scene sample_started = Some 0" "camera sample_started = Some 1"
    by (simp_all add: loading_def ready_def)
  from sample_loaded_loaded have
    c: "renderer sample_loaded \<noteq> None \<and> model_ok sample_loaded"
    and d: "scene sample_loaded = Some 0" "camera sample_loaded = Some 1"
    by (auto simp add: loaded_def ready_def model_ok_def split: option.splits)
  have e: "first_load [Frame (Num 16)] = None" by simp
  from animate_without_model [of sample_started "Num 16", THEN conjunct1]
    animate_without_model [of sample_loaded "Num 16", THEN conjunct2, THEN conjunct1]
    animate_without_model [of _ _ "[Frame (Num 16)]" "Num 800" "Num 600",
      THEN conjunct2, THEN conjunct2]
    a b c d e
  show ?thesis by auto
qed

text \<open>
  Claim C3. Called when the variable \<open>scene\<close> refers to a scene without children (an object
  of the store, so its reference is below the next free one), \<open>setUpLight\<close> returns and
  leaves the scene with exactly three children, all lights: an ambient light at
  (0, 10, 10), a directional light at (0, 10, 11) and a directional light at (0, 10, 9).
  The two directional lights have the same colour and intensity; their colour, 0xffd700,
  is not the ambient light's, 0xffffff.
\<close>

theorem setUpLight_three_lights:
  assumes "scene s = Some sc" and "heap s sc = Some sob" and "children sob = []"
    and "sc < next_ref s"
  shows "\<exists>s'. setUpLight s = Returns s' \<and>
     scene_children s' = [next_ref s, next_ref s + 1, next_ref s + 2] \<and>
     lights s' =
       [placed (AmbientLight (Num 16777215) (Num 5)) 0 10 10,
        placed (DirectionalLight (Num 16766720) (Num 5)) 0 10 11,
        placed (DirectionalLight (Num 16766720) (Num 5)) 0 10 9] \<and>
     AMBIENT_COLOR = Num 16777215 \<and> DIRECTIONAL_COLOR = Num 16766720 \<and>
     DIRECTIONAL_COLOR \<noteq> AMBIENT_COLOR"
proof -
  from setUpLight_result [OF assms(1,2,4)] assms(3) obtain s' where
    "setUpLight s = Returns s'" "scene s' = Some sc"
    "heap s' sc = Some (sob\<lparr>children := [next_ref s, next_ref s + 1, next_ref s + 2]\<rparr>)"
    "heap s' (next_ref s) = Some (placed (AmbientLight (Num 16777215) (Num 5)) 0 10 10)"
    "heap s' (next_ref s + 1) = Some (placed (DirectionalLight (Num 16766720) (Num 5)) 0 10 11)"
    "heap s' (next_ref s + 2) = Some (placed (DirectionalLight (Num 16766720) (Num 5)) 0 10 9)"
    by auto
  then show ?thesis
    by (simp add: scene_children_def deref_def lights_def is_light_def
        placed_def consts_defs)
qed

theorem setUpLight_three_lights_witness:
  "scene_children (state_of (setUpLight sample_before_lights)) = [2, 3, 4] \<and>
   lights (state_of (setUpLight sample_before_lights)) =
     [placed (AmbientLight (Num 16777215) (Num 5)) 0 10 10,
      placed (DirectionalLight (Num 16766720) (Num 5)) 0 10 11,
      placed (DirectionalLight (Num 16766720) (Num 5)) 0 10 9]"
proof -
  have a: "scene sample_before_lights = Some 0"
    and b: "heap sample_before_lights 0 =
              Some (placed (Scene (Some (Texture ''materials/space.jpg''))) 0 0 0)"
    and c: "children (placed (Scene (Some (Texture ''materials/space.jpg''))) 0 0 0) = []"
    and d: "0 < next_ref sample_before_lights"
    and e: "next_ref sample_before_lights = 2"
    using sample_before_lights_scene by (simp_all add: placed_def)
  from setUpLight_three_lights [OF a b c d] e show ?thesis
    by auto
qed

text \<open>
  Claim C4, as amended. \<open>configureCamera\<close> always returns; the variable \<open>camera\<close> then refers to
  a new perspective camera with field of view 45, near plane 1, far plane 1000 and
  position (0, 10, 17), whose aspect ratio is the quotient of the constants \<open>WIDTH\<close> and
  \<open>HEIGHT\<close>, read from the window at start-up, as JavaScript divides: for a width \<open>w \<ge> 0\<close>
  and a height \<open>h \<ge> 1\<close> it is a double nearest to the real \<open>w / h\<close>, and \<open>w / h\<close> itself
  whenever that is a double.

  The claim as stated, with the aspect ratio the width divided by the height, fails for a
  window of 800 by 600: 4/3 is not a double, and the camera gets
  \<open>6004799503160661 / 2 ^ 52\<close>.
\<close>

theorem configureCamera_camera:
  "\<exists>s'. configureCamera s = Returns s' \<and> camera s' = Some (next_ref s) \<and>
     heap s' (next_ref s) =
       Some (placed (PerspectiveCamera (Num 45) (js_div (WIDTH s) (HEIGHT s)) (Num 1) (Num 1000))
               0 10 17) \<and>
     (\<forall>w h. WIDTH s = Num w \<and> HEIGHT s = Num h \<and> 0 \<le> w \<and> w < 2 ^ 1023 \<and> 1 \<le> h \<longrightarrow>
        (\<exists>r. js_div (WIDTH s) (HEIGHT s) = Num r \<and> is_double r \<and>
           (\<forall>d. is_double d \<longrightarrow> \<bar>r - w / h\<bar> \<le> \<bar>d - w / h\<bar>) \<and>
           (is_double (w / h) \<longrightarrow> r = w / h)))"
proof -
  have "\<exists>r. js_div (Num w) (Num h) = Num r \<and> is_double r \<and>
           (\<forall>d. is_double d \<longrightarrow> \<bar>r - w / h\<bar> \<le> \<bar>d - w / h\<bar>) \<and>
           (is_double (w / h) \<longrightarrow> r = w / h)"
    if wh: "0 \<le> w" "w < 2 ^ 1023" "1 \<le> h" for w h :: real
  proof -
    from wh have d: "js_div (Num w) (Num h) = round_double (w / h)"
      by (simp add: js_div_nonneg)
    from wh have "w / h \<le> w / 1"
      by (intro divide_left_mono) simp_all
    then have "w / h \<le> w"
      by simp
    with wh have "0 \<le> w / h" "w / h < 2 ^ 1023"
      by simp_all
    with round_double_finite obtain r where r: "round_double (w / h) = Num r"
      by blast
    with d round_double_is_double [OF r] round_double_nearest [OF r] round_double_exact [of "w / h"]
    show ?thesis by auto
  qed
  then show ?thesis
    by (simp add: configureCamera_def lib_defs consts_defs)
qed

theorem configureCamera_camera_witness:
  "heap (state_of (configureCamera (state_of (createScene (initial_state (Num 1024) (Num 512)))))) 1 =
     Some (placed (PerspectiveCamera (Num 45) (Num 2) (Num 1) (Num 1000)) 0 10 17) \<and>
   heap (state_of (configureCamera (state_of (createScene (initial_state (Num 800) (Num 600)))))) 1 =
     Some (placed (PerspectiveCamera (Num 45) (Num (6004799503160661 / 4503599627370496))
             (Num 1) (Num 1000)) 0 10 17)"
proof -
  have e: "WIDTH (state_of (createScene (initial_state (Num 800) (Num 600)))) = Num 800"
    and f: "HEIGHT (state_of (createScene (initial_state (Num 800) (Num 600)))) = Num 600"
    and g: "next_ref (state_of (createScene (initial_state (Num 800) (Num 600)))) = 1"
    by (simp_all add: initial_state_def createScene_def lib_defs)
  have a: "WIDTH (state_of (createScene (initial_state (Num 1024) (Num 512)))) = Num 1024"
    and b: "HEIGHT (state_of (createScene (initial_state (Num 1024) (Num 512)))) = Num 512"
    and c: "next_ref (state_of (createScene (initial_state (Num 1024) (Num 512)))) = 1"
    by (simp_all add: initial_state_def createScene_def lib_defs)
  have d: "is_double (1024 / 512)"
    by (simp add: is_double_def round_defs)
  from configureCamera_camera [of "state_of (createScene (initial_state (Num 1024) (Num 512)))"]
    configureCamera_camera [of "state_of (createScene (initial_state (Num 800) (Num 600)))"]
    a b c d e f g
  show ?thesis by (auto simp add: js_div_800_600)
qed

text \<open>The claim as stated fails for a window of 800 by 600.\<close>

theorem configureCamera_camera_counterexample:
  "heap (state_of (configureCamera (state_of (createScene (initial_state (Num 800) (Num 600)))))) 1 \<noteq>
     Some (placed (PerspectiveCamera (Num 45) (Num (800 / 600)) (Num 1) (Num 1000)) 0 10 17)"
  by (simp add: initial_state_def createScene_def configureCamera_def lib_defs consts_defs
      js_div_800_600)

text \<open>
  Claim C5. Whatever frames and loader events follow \<open>init\<close>, no callback throws. Until the
  loader answers, \<open>model\<close> is undefined and the scene has its three lights as children.
  From the answer on, \<open>model\<close> refers to the loaded root, whose scale is (0.5, 0.5, 0.5) and
  whose position is (0, 10, 10), and the scene has four children, the root being the last
  and appearing once: later frames and later loader events add nothing.
\<close>

theorem model_inserted_once:
  "\<exists>s. run es (state_of (app_js w h)) = Returns s \<and>
     (case first_load es of
        None \<Rightarrow> model s = None \<and> scene_children s = [2, 3, 4]
      | Some g \<Rightarrow>
          model s = Some 5 \<and> scene_children s = [2, 3, 4, 5] \<and>
          map_option scale (deref (model s) s) =
            Some \<lparr>vec_x = Num (1 / 2), vec_y = Num (1 / 2), vec_z = Num (1 / 2)\<rparr> \<and>
          map_option position (deref (model s) s) =
            Some \<lparr>vec_x = Num 0, vec_y = Num 10, vec_z = Num 10\<rparr>)"
proof -
  from reachable [of es w h] obtain s where
    s: "run es (state_of (app_js w h)) = Returns s"
      "case first_load es of None \<Rightarrow> loading w h s | Some g \<Rightarrow> loaded w h g s"
    by blast
  show ?thesis
  proof (cases "first_load es")
    case None
    with s loading_view(1) [of w h s] show ?thesis
      by (simp add: loading_def)
  next
    case (Some g)
    with s loaded_view(1) [of w h g s] show ?thesis
      by (auto simp add: loaded_def deref_def split: option.splits)
  qed
qed

text \<open>
  Claim C6. \<open>init\<close> returns, and the calls it has made are, in this order: the scene and its
  background texture, the camera, the three lights (each created, then added to the
  scene), the load request for the model, and last the renderer with its size, its
  animation loop bound to \<open>animate\<close>, and its canvas appended to the page. No draw is among
  them. After any events that follow, one draw has been made per frame, each of scene 0
  from camera 1, and the scene, the camera and the three lights are in the store.
\<close>

theorem init_order:
  "(\<exists>s. app_js w h = Returns s \<and>
      calls s =
        [New (Scene None), TextureLoaderLoad BACKGROUND_IMG_PATH,
         New (PerspectiveCamera FOV (js_div w h) NEAR FAR),
         New (AmbientLight AMBIENT_COLOR LIGHT_INTENSITY), Add 0 2,
         New (DirectionalLight DIRECTIONAL_COLOR LIGHT_INTENSITY), Add 0 3,
         New (DirectionalLight DIRECTIONAL_COLOR LIGHT_INTENSITY), Add 0 4,
         GLTFLoaderLoad MODEL_GLTF_PATH OnModelLoaded,
         NewWebGLRenderer True, SetSize w h, SetAnimationLoop Animate, AppendChild]) \<and>
   (\<exists>s. run es (state_of (app_js w h)) = Returns s \<and>
      draws s = replicate (length (filter is_frame es)) (Render (Some 0) (Some 1)) \<and>
      scene s = Some 0 \<and> camera s = Some 1 \<and>
      map_option kind (heap s 0) = Some (Scene (Some (Texture BACKGROUND_IMG_PATH))) \<and>
      heap s 1 =
        Some (placed (PerspectiveCamera (Num 45) (js_div w h) (Num 1) (Num 1000)) 0 10 17) \<and>
      lights s =
        [placed (AmbientLight (Num 16777215) (Num 5)) 0 10 10,
         placed (DirectionalLight (Num 16766720) (Num 5)) 0 10 11,
         placed (DirectionalLight (Num 16766720) (Num 5)) 0 10 9])"
proof
  from app_js_loading [of w h] app_js_calls [of w h]
  show "\<exists>s. app_js w h = Returns s \<and>
      calls s =
        [New (Scene None), TextureLoaderLoad BACKGROUND_IMG_PATH,
         New (PerspectiveCamera FOV (js_div w h) NEAR FAR),
         New (AmbientLight AMBIENT_COLOR LIGHT_INTENSITY), Add 0 2,
         New (DirectionalLight DIRECTIONAL_COLOR LIGHT_INTENSITY), Add 0 3,
         New (DirectionalLight DIRECTIONAL_COLOR LIGHT_INTENSITY), Add 0 4,
         GLTFLoaderLoad MODEL_GLTF_PATH OnModelLoaded,
         NewWebGLRenderer True, SetSize w h, SetAnimationLoop Animate, AppendChild]"
    by (auto simp add: consts_defs)
next
  from reachable [of es w h] obtain s where
    s: "run es (state_of (app_js w h)) = Returns s"
      "case first_load es of None \<Rightarrow> loading w h s | Some g \<Rightarrow> loaded w h g s"
      "draws s = replicate (length (filter is_frame es)) (Render (Some 0) (Some 1))"
    by blast
  have "scene s = Some 0 \<and> camera s = Some 1 \<and>
      map_option kind (heap s 0) = Some (Scene (Some (Texture BACKGROUND_IMG_PATH))) \<and>
      heap s 1 =
        Some (placed (PerspectiveCamera (Num 45) (js_div w h) (Num 1) (Num 1000)) 0 10 17) \<and>
      lights s =
        [placed (AmbientLight (Num 16777215) (Num 5)) 0 10 10,
         placed (DirectionalLight (Num 16766720) (Num 5)) 0 10 11,
         placed (DirectionalLight (Num 16766720) (Num 5)) 0 10 9]"
  proof (cases "first_load es")
    case None
    with s(2) loading_view(3) [of w h s] show ?thesis
      by (simp add: loading_def ready_def placed_def consts_defs)
  next
    case (Some g)
    with s(2) loaded_view(3) [of w h g s] show ?thesis
      by (simp add: loaded_def ready_def placed_def consts_defs)
  qed
  with s(1,3) show "\<exists>s. run es (state_of (app_js w h)) = Returns s \<and>
      draws s = replicate (length (filter is_frame es)) (Render (Some 0) (Some 1)) \<and>
      scene s = Some 0 \<and> camera s = Some 1 \<and>
      map_option kind (heap s 0) = Some (Scene (Some (Texture BACKGROUND_IMG_PATH))) \<and>
      heap s 1 =
        Some (placed (PerspectiveCamera (Num 45) (js_div w h) (Num 1) (Num 1000)) 0 10 17) \<and>
      lights s =
        [placed (AmbientLight (Num 16777215) (Num 5)) 0 10 10,
         placed (DirectionalLight (Num 16766720) (Num 5)) 0 10 11,
         placed (DirectionalLight (Num 16766720) (Num 5)) 0 10 9]"
    by blast
qed

text \<open>
  Claim C7. In every state the program reaches after \<open>init\<close>, by any frames and loader
  events, the camera and the three lights are the objects \<open>init\<close> made, and a call of \<open>animate\<close>
  with any time value returns and leaves the camera (field of view, planes, aspect ratio,
  position) and the lights (colour, intensity, position) as they were.
\<close>

theorem camera_and_lights_unchanged:
  "\<exists>s s'. run es (state_of (app_js w h)) = Returns s \<and> animate time s = Returns s' \<and>
     camera s' = camera s \<and> deref (camera s') s' = deref (camera s) s \<and>
     lights s' = lights s \<and>
     deref (camera s) s =
       Some (placed (PerspectiveCamera (Num 45) (js_div w h) (Num 1) (Num 1000)) 0 10 17) \<and>
     lights s =
       [placed (AmbientLight (Num 16777215) (Num 5)) 0 10 10,
        placed (DirectionalLight (Num 16766720) (Num 5)) 0 10 11,
        placed (DirectionalLight (Num 16766720) (Num 5)) 0 10 9]"
proof -
  from reachable [of es w h] obtain s where
    s: "run es (state_of (app_js w h)) = Returns s"
      "case first_load es of None \<Rightarrow> loading w h s | Some g \<Rightarrow> loaded w h g s"
    by blast
  show ?thesis
  proof (cases "first_load es")
    case None
    with s(2) have l: "loading w h s" by simp
    from frame_loading [OF l, of time] obtain s' where
      s': "animate time s = Returns s'" "loading w h s'"
      using l by (auto simp add: loading_def ready_def)
    from s(1) s' l loading_view(2,3) [of w h] show ?thesis
      by (auto simp add: loading_def ready_def)
  next
    case (Some g)
    with s(2) have l: "loaded w h g s" by simp
    from frame_loaded [OF l, of time] obtain s' where
      s': "animate time s = Returns s'" "loaded w h g s'"
      using l by (auto simp add: loaded_def ready_def)
    from s(1) s' l loaded_view(2,3) [of w h g] show ?thesis
      by (auto simp add: loaded_def ready_def)
  qed
qed

text \<open>
  Claim C8. From a state where \<open>model\<close> refers to an object and the renderer exists, two
  sequences of calls of \<open>animate\<close> that end with the same time value both return and leave the
  model with the same rotation, which is given by that last time value alone (and the
  rotation about the z axis, which no call changes). Every state the program reaches once
  the loader has answered is such a state.
\<close>

theorem rotation_depends_on_time_only:
  "(model s = Some m \<and> heap s m = Some ob \<and> renderer s \<noteq> None \<longrightarrow>
      (\<exists>s1 s2. seq (map animate (ts1 @ [time])) s = Returns s1 \<and>
         seq (map animate (ts2 @ [time])) s = Returns s2 \<and>
         model_rotation s1 = model_rotation s2 \<and>
         model_rotation s1 =
           Some \<lparr>euler_x = js_div time ROTATE_X_DELAY, euler_y = js_div time ROTATE_Y_DELAY,
                 euler_z = euler_z (rotation ob)\<rparr>)) \<and>
   (first_load es = Some g \<longrightarrow>
      (\<exists>s1 m1 ob1. run es (state_of (app_js w h)) = Returns s1 \<and> model s1 = Some m1 \<and>
         heap s1 m1 = Some ob1 \<and> renderer s1 \<noteq> None \<and>
         euler_z (rotation ob1) = euler_z (rotation g)))"
proof (intro conjI impI)
  assume a: "model s = Some m \<and> heap s m = Some ob \<and> renderer s \<noteq> None"
  then obtain r where r: "renderer s = Some r" by auto
  from a have m: "model s = Some m" and h: "heap s m = Some ob" by simp_all
  from animate_last [OF m h r, of ts1 time] animate_last [OF m h r, of ts2 time]
  show "\<exists>s1 s2. seq (map animate (ts1 @ [time])) s = Returns s1 \<and>
         seq (map animate (ts2 @ [time])) s = Returns s2 \<and>
         model_rotation s1 = model_rotation s2 \<and>
         model_rotation s1 =
           Some \<lparr>euler_x = js_div time ROTATE_X_DELAY, euler_y = js_div time ROTATE_Y_DELAY,
                 euler_z = euler_z (rotation ob)\<rparr>"
    by (auto simp add: consts_defs)
next
  assume "first_load es = Some g"
  from reachable_loaded [OF this, of w h]
  show "\<exists>s1 m1 ob1. run es (state_of (app_js w h)) = Returns s1 \<and> model s1 = Some m1 \<and>
         heap s1 m1 = Some ob1 \<and> renderer s1 \<noteq> None \<and>
         euler_z (rotation ob1) = euler_z (rotation g)"
    by blast
qed

theorem rotation_depends_on_time_only_witness:
  "model_rotation (state_of (seq (map animate [Num 0, Num 16, Num 2000]) sample_loaded)) =
     Some \<lparr>euler_x = Num 1, euler_y = Num 2, euler_z = Num 0\<rparr> \<and>
   model_rotation (state_of (seq (map animate [Num 5000, Num 2000]) sample_loaded)) =
     Some \<lparr>euler_x = Num 1, euler_y = Num 2, euler_z = Num 0\<rparr> \<and>
   (\<exists>s1 m1 ob1.
      run [Frame (Num 16), Loaded (Object3D Group)] (state_of (app_js (Num 800) (Num 600))) =
        Returns s1 \<and>
      model s1 = Some m1 \<and> heap s1 m1 = Some ob1 \<and> renderer s1 \<noteq> None \<and>
      euler_z (rotation ob1) = Num 0)"
proof -
  from sample_loaded_loaded obtain ob where
    a: "model sample_loaded = Some 5 \<and> heap sample_loaded 5 = Some ob \<and>
        renderer sample_loaded \<noteq> None"
    and z: "euler_z (rotation ob) = Num 0"
    by (auto simp add: loaded_def ready_def Object3D_def split: option.splits)
  from rotation_depends_on_time_only
         [of sample_loaded 5 ob "[Num 0, Num 16]" "Num 2000" "[Num 5000]", THEN conjunct1] a
  obtain s1 s2 where
    "seq (map animate ([Num 0, Num 16] @ [Num 2000])) sample_loaded = Returns s1"
    "seq (map animate ([Num 5000] @ [Num 2000])) sample_loaded = Returns s2"
    "model_rotation s1 = model_rotation s2"
    "model_rotation s1 =
       Some \<lparr>euler_x = js_div (Num 2000) ROTATE_X_DELAY,
             euler_y = js_div (Num 2000) ROTATE_Y_DELAY, euler_z = euler_z (rotation ob)\<rparr>"
    by blast
  moreover
  have "first_load [Frame (Num 16), Loaded (Object3D Group)] = Some (Object3D Group)"
    by simp
  with rotation_depends_on_time_only
         [of _ _ _ _ _ _ "[Frame (Num 16), Loaded (Object3D Group)]" "Object3D Group"
            "Num 800" "Num 600", THEN conjunct2]
  have "\<exists>s1 m1 ob1.
      run [Frame (Num 16), Loaded (Object3D Group)] (state_of (app_js (Num 800) (Num 600))) =
        Returns s1 \<and>
      model s1 = Some m1 \<and> heap s1 m1 = Some ob1 \<and> renderer s1 \<noteq> None \<and>
      euler_z (rotation ob1) = Num 0"
    by (simp add: Object3D_def)
  ultimately show ?thesis using z by (simp add: consts_defs js_div_2000 js_div_2000_1000)
qed

text \<open>
  Claim C9. When \<open>model\<close> refers to an object, \<open>animate\<close> changes of that object the rotation
  about the x and y axes only: its rotation about the z axis, its position, its scale, its
  class and its children are what they were before the call. For a model whose root
  arrived unrotated, the rotation about z is still 0, the position (0, 10, 10) and the
  scale 0.5 after a frame.
\<close>

theorem animate_only_rotates:
  assumes "model s = Some m" and "heap s m = Some ob"
  shows "\<exists>ob'. heap (state_of (animate time s)) m = Some ob' \<and>
     euler_x (rotation ob') = js_div time ROTATE_X_DELAY \<and>
     euler_y (rotation ob') = js_div time ROTATE_Y_DELAY \<and>
     euler_z (rotation ob') = euler_z (rotation ob) \<and>
     position ob' = position ob \<and> scale ob' = scale ob \<and>
     kind ob' = kind ob \<and> children ob' = children ob"
  using assms
  by (cases "renderer s") (simp_all add: animate_def lib_defs)

theorem animate_only_rotates_witness:
  "\<exists>ob'. heap (state_of (animate (Num 2000) sample_loaded)) 5 = Some ob' \<and>
     rotation ob' = \<lparr>euler_x = Num 1, euler_y = Num 2, euler_z = Num 0\<rparr> \<and>
     position ob' = \<lparr>vec_x = Num 0, vec_y = Num 10, vec_z = Num 10\<rparr> \<and>
     scale ob' = \<lparr>vec_x = Num (1 / 2), vec_y = Num (1 / 2), vec_z = Num (1 / 2)\<rparr>"
proof -
  from sample_loaded_loaded obtain ob where
    m: "model sample_loaded = Some 5" and h: "heap sample_loaded 5 = Some ob"
    and z: "euler_z (rotation ob) = Num 0"
    and p: "position ob = \<lparr>vec_x = Num 0, vec_y = Num 10, vec_z = Num 10\<rparr>"
    and c: "scale ob = \<lparr>vec_x = Num (1 / 2), vec_y = Num (1 / 2), vec_z = Num (1 / 2)\<rparr>"
    by (auto simp add: loaded_def Object3D_def split: option.splits)
  from animate_only_rotates [OF m h, of "Num 2000"] z p c show ?thesis
    by (auto simp add: consts_defs js_div_2000 js_div_2000_1000)
qed

text \<open>
  Claim C10. Called when the variable \<open>scene\<close> refers to a scene without children,
  \<open>setUpLight\<close> makes exactly three constructor calls, for the ambient light and the two
  directional lights, each with intensity \<open>LIGHT_INTENSITY = 5\<close>, and the three lights of
  the scene have intensity 5.
\<close>

theorem setUpLight_intensity:
  assumes "scene s = Some sc" and "heap s sc = Some sob" and "children sob = []"
    and "sc < next_ref s"
  shows "\<exists>s'. setUpLight s = Returns s' \<and>
     map intensity (lights s') = [Some (Num 5), Some (Num 5), Some (Num 5)] \<and>
     filter is_new (drop (length (calls s)) (calls s')) =
       [New (AmbientLight AMBIENT_COLOR (Num 5)),
        New (DirectionalLight DIRECTIONAL_COLOR (Num 5)),
        New (DirectionalLight DIRECTIONAL_COLOR (Num 5))] \<and>
     LIGHT_INTENSITY = Num 5"
proof -
  from setUpLight_result [OF assms(1,2,4)] assms(3) obtain s' where
    "setUpLight s = Returns s'" "scene s' = Some sc"
    "heap s' sc = Some (sob\<lparr>children := [next_ref s, next_ref s + 1, next_ref s + 2]\<rparr>)"
    "heap s' (next_ref s) = Some (placed (AmbientLight (Num 16777215) (Num 5)) 0 10 10)"
    "heap s' (next_ref s + 1) = Some (placed (DirectionalLight (Num 16766720) (Num 5)) 0 10 11)"
    "heap s' (next_ref s + 2) = Some (placed (DirectionalLight (Num 16766720) (Num 5)) 0 10 9)"
    "calls s' = calls s @
       [New (AmbientLight (Num 16777215) (Num 5)), Add sc (next_ref s),
        New (DirectionalLight (Num 16766720) (Num 5)), Add sc (next_ref s + 1),
        New (DirectionalLight (Num 16766720) (Num 5)), Add sc (next_ref s + 2)]"
    by auto
  then show ?thesis
    by (simp add: scene_children_def deref_def lights_def is_light_def
        intensity_def placed_def consts_defs)
qed

theorem setUpLight_intensity_witness:
  "map intensity (lights (state_of (setUpLight sample_before_lights))) =
     [Some (Num 5), Some (Num 5), Some (Num 5)]"
proof -
  have a: "scene sample_before_lights = Some 0"
    and b: "heap sample_before_lights 0 =
              Some (placed (Scene (Some (Texture ''materials/space.jpg''))) 0 0 0)"
    and c: "children (placed (Scene (Some (Texture ''materials/space.jpg''))) 0 0 0) = []"
    and d: "0 < next_ref sample_before_lights"
    using sample_before_lights_scene by (simp_all add: placed_def)
  from setUpLight_intensity [OF a b c d] show ?thesis
    by auto
qed

end
